theory Spec2Isabelle
  imports Main "HOL-Library.AList"
begin

section \<open>Data model of \<open>RealTimeFeedService\<close> (src/assets/js/real-time-feed.js)\<close>

text \<open>
  The service object holds five JavaScript \<open>Map\<close>s. A \<open>Map\<close> iterates in insertion
  order and \<open>set\<close> on an existing key keeps the key's position, which is what
  \<open>AList.update\<close> does on an association list; \<open>get\<close> is \<open>map_of\<close>.

  Numbers are modelled as \<open>int\<close> (millisecond timestamps, counters); floating point
  values do not occur in the modelled part.
\<close>

datatype ready_state = CONNECTING | OPEN | CLOSING | CLOSED

record feed_config =
  name :: string
  url :: string
  reconnectInterval :: int
  maxReconnectAttempts :: int

text \<open>
  A parsed message. The service reads two properties of a message, \<open>channel\<close>
  (in \<open>notifySubscribers\<close>) and \<open>timestamp\<close> (in \<open>checkConnectionHealth\<close>, and
  overwritten in \<open>addToBuffer\<close>); every other property, including \<open>type\<close>, is only
  handed to the external handlers and kept as an opaque field list. A property that
  is absent (\<open>undefined\<close>) is \<open>None\<close>.

  \<open>JSON.parse\<close> can also return \<open>null\<close>, on which every property access throws a
  \<open>TypeError\<close>; that is \<open>JNull\<close>. The other non-object results (numbers, strings,
  booleans, arrays) have none of the properties read here and behave as a message
  with both properties absent.
\<close>

record message =
  channel :: "string option"
  timestamp :: "int option"
  payload :: "(string \<times> string) list"

datatype parsed = JNull | JMsg message

record feed =
  websocket :: nat
  config :: feed_config
  status :: string
  lastMessage :: parsed
  messageCount :: int

text \<open>
  A JavaScript \<open>Set\<close> of callbacks, as ECMAScript specifies its \<open>[[SetData]]\<close> list:
  \<open>add\<close> appends a value that is not yet present, \<open>delete\<close> replaces the value by
  the marker \<open>empty\<close> (here \<open>None\<close>), \<open>size\<close> counts the values that are not
  \<open>empty\<close>. Callbacks are compared by identity; a callback is identified by a
  number.
\<close>

type_synonym callback = nat
type_synonym callback_set = "callback option list"

fun members :: "callback_set \<Rightarrow> callback list" where
  "members [] = []"
| "members (None # es) = members es"
| "members (Some c # es) = c # members es"

definition set_size :: "callback_set \<Rightarrow> nat" where
  "set_size es = length (members es)"

definition set_add :: "callback \<Rightarrow> callback_set \<Rightarrow> callback_set" where
  "set_add c es = (if Some c \<in> set es then es else es @ [Some c])"

definition set_delete :: "callback \<Rightarrow> callback_set \<Rightarrow> callback_set" where
  "set_delete c es = map (\<lambda>e. if e = Some c then None else e) es"

text \<open>
  The state: the five maps of the constructor, and the transport objects created by
  \<open>new WebSocket\<close>, numbered in creation order, each with the \<open>readyState\<close> the
  browser keeps for it.
\<close>

record service =
  feeds :: "(string \<times> feed) list"
  subscribers :: "(string \<times> callback_set) list"
  buffer :: "(string \<times> message list) list"
  connections :: "(string \<times> nat) list"
  reconnectAttempts :: "(string \<times> int) list"
  sockets :: "ready_state list"

definition readyState :: "service \<Rightarrow> nat \<Rightarrow> ready_state" where
  "readyState s ws = (if ws < length (sockets s) then sockets s ! ws else CLOSED)"

definition empty_service :: service where
  "empty_service = \<lparr>feeds = [], subscribers = [], buffer = [], connections = [],
     reconnectAttempts = [], sockets = []\<rparr>"

subsection \<open>Effects\<close>

text \<open>
  What a method does to the outside world is returned as a list of effects, in the
  order the code performs them: transport creation and \<open>send\<close>, \<open>setTimeout\<close>,
  console output, and the calls of subscriber callbacks and of feed handlers.
\<close>

datatype wire = Subscribe_action string | Unsubscribe_action string | Heartbeat int

datatype console =
    Connected string
  | Disconnected string
  | SocketError string
  | ConnectFailed string
  | MaxReconnect string
  | Attempting string int int
  | MessageError string
  | NoMessage string
  | SubscriberError callback

datatype effect =
    NewWebSocket string
  | Send nat wire
  | SetTimeout feed_config
  | ConsoleLog console
  | ConsoleWarn console
  | ConsoleError console
  | Callback callback parsed
  | Handler string parsed

section \<open>Ring buffer: \<open>addToBuffer\<close>, \<open>cleanBuffer\<close>, \<open>getBuffer\<close>\<close>

text \<open>
  \<open>{...message, timestamp: Date.now()}\<close>: the message's own properties with
  \<open>timestamp\<close> overridden; spreading \<open>null\<close> gives no property.
\<close>

definition buffered :: "parsed \<Rightarrow> int \<Rightarrow> message" where
  "buffered msg now =
     (case msg of
        JNull \<Rightarrow> \<lparr>channel = None, timestamp = Some now, payload = []\<rparr>
      | JMsg m \<Rightarrow> m\<lparr>timestamp := Some now\<rparr>)"

text \<open>\<open>this.buffer.get(feedName) || []\<close>: the feed's array, empty when there is none.\<close>

definition feedBufferOf :: "service \<Rightarrow> string \<Rightarrow> message list" where
  "feedBufferOf s feedName = (case map_of (buffer s) feedName of None \<Rightarrow> [] | Some b \<Rightarrow> b)"

definition maxBufferSize :: nat where
  "maxBufferSize = 1000"

definition addToBuffer :: "string \<Rightarrow> parsed \<Rightarrow> int \<Rightarrow> service \<Rightarrow> service" where
  "addToBuffer feedName msg now s =
     (let feedBuffer = feedBufferOf s feedName @ [buffered msg now];
          feedBuffer' = (if length feedBuffer > maxBufferSize
                         then drop (length feedBuffer - maxBufferSize) feedBuffer
                         else feedBuffer)
      in s\<lparr>buffer := AList.update feedName feedBuffer' (buffer s)\<rparr>)"

definition maxAge :: int where
  "maxAge = 5 * 60 * 1000"

text \<open>
  \<open>now - msg.timestamp < maxAge\<close>; with \<open>timestamp\<close> absent the difference is
  \<open>NaN\<close> and the comparison is false.
\<close>

definition fresh :: "int \<Rightarrow> message \<Rightarrow> bool" where
  "fresh now msg = (case timestamp msg of None \<Rightarrow> False | Some t \<Rightarrow> now - t < maxAge)"

definition cleanBuffer :: "int \<Rightarrow> service \<Rightarrow> service" where
  "cleanBuffer now s = s\<lparr>buffer := map (\<lambda>(feedName, messages). (feedName, filter (fresh now) messages)) (buffer s)\<rparr>"

text \<open>
  \<open>messages.slice(-limit)\<close>: a negative start counts from the end and is clamped at
  0; \<open>-0\<close> is 0, so a limit of 0 returns the whole array; a negative limit is a
  positive start, clamped at the length.
\<close>

definition slice_from :: "int \<Rightarrow> 'a list \<Rightarrow> 'a list" where
  "slice_from start xs =
     (if start < 0 then drop (nat (max (int (length xs) + start) 0)) xs
      else drop (nat start) xs)"

definition getBuffer :: "service \<Rightarrow> string \<Rightarrow> int \<Rightarrow> message list" where
  "getBuffer s feedName limit =
     slice_from (- limit) (feedBufferOf s feedName)"

text \<open>Appending a sequence of messages, each with the clock value at its arrival.\<close>

fun appendAll :: "string \<Rightarrow> (parsed \<times> int) list \<Rightarrow> service \<Rightarrow> service" where
  "appendAll feedName [] s = s"
| "appendAll feedName ((msg, now) # rest) s = appendAll feedName rest (addToBuffer feedName msg now s)"

section \<open>Feed lifecycle: \<open>connectFeed\<close>, \<open>attemptReconnect\<close>, the socket handlers\<close>

text \<open>
  \<open>this.reconnectAttempts.get(config.name) || 0\<close>: 0 when the key is absent (and when
  the stored value is 0).
\<close>

definition attemptsOf :: "service \<Rightarrow> string \<Rightarrow> int" where
  "attemptsOf s feedName = (case map_of (reconnectAttempts s) feedName of None \<Rightarrow> 0 | Some a \<Rightarrow> a)"

definition attemptReconnect :: "feed_config \<Rightarrow> service \<Rightarrow> effect list \<times> service" where
  "attemptReconnect cfg s =
     (let attempts = attemptsOf s (name cfg) in
      if attempts \<ge> maxReconnectAttempts cfg
      then ([ConsoleError (MaxReconnect (name cfg))], s)
      else ([ConsoleLog (Attempting (name cfg) (attempts + 1) (maxReconnectAttempts cfg)),
             SetTimeout cfg],
            s\<lparr>reconnectAttempts := AList.update (name cfg) (attempts + 1) (reconnectAttempts s)\<rparr>))"

text \<open>
  \<open>connectFeed\<close>. The constructor \<open>new WebSocket(url)\<close> either throws (first
  argument \<open>True\<close>: the \<open>catch\<close> branch logs and calls \<open>attemptReconnect\<close>, and the
  feed entry is not written) or returns a new transport in state \<open>CONNECTING\<close>,
  which is stored in a fresh feed entry with status \<open>'connecting'\<close>.
\<close>

definition connectFeed :: "bool \<Rightarrow> feed_config \<Rightarrow> service \<Rightarrow> effect list \<times> service" where
  "connectFeed constructorThrows cfg s =
     (if constructorThrows
      then (case attemptReconnect cfg s of
              (es, s') \<Rightarrow> (NewWebSocket (url cfg) # ConsoleError (ConnectFailed (name cfg)) # es, s'))
      else (let ws = length (sockets s) in
            ([NewWebSocket (url cfg)],
             s\<lparr>sockets := sockets s @ [CONNECTING],
               feeds := AList.update (name cfg)
                 \<lparr>websocket = ws, config = cfg, status = ''connecting'',
                  lastMessage = JNull, messageCount = 0\<rparr> (feeds s)\<rparr>)))"

definition defaultChannels :: "string \<Rightarrow> string list" where
  "defaultChannels feedName =
     (if feedName = ''market'' then [''BTCUSDT'', ''ETHUSDT'', ''XAUUSD'', ''EURUSD'', ''SPY'']
      else if feedName = ''trades'' then [''executed'', ''filled'', ''cancelled'']
      else if feedName = ''quotes'' then [''bid'', ''ask'', ''spread'']
      else if feedName = ''news'' then [''market'', ''analysis'', ''regulatory'']
      else [])"

definition subscribeToDefaultChannels :: "nat \<Rightarrow> string \<Rightarrow> effect list" where
  "subscribeToDefaultChannels ws feedName =
     map (\<lambda>c. Send ws (Subscribe_action c)) (defaultChannels feedName)"

text \<open>The handlers installed on a transport by \<open>connectFeed\<close>.\<close>

definition ws_onopen :: "feed_config \<Rightarrow> nat \<Rightarrow> service \<Rightarrow> effect list \<times> service" where
  "ws_onopen cfg ws s =
     (ConsoleLog (Connected (name cfg)) # subscribeToDefaultChannels ws (name cfg),
      s\<lparr>connections := AList.update (name cfg) ws (connections s),
        reconnectAttempts := AList.update (name cfg) 0 (reconnectAttempts s)\<rparr>)"

definition ws_onclose :: "feed_config \<Rightarrow> service \<Rightarrow> effect list \<times> service" where
  "ws_onclose cfg s =
     (case attemptReconnect cfg (s\<lparr>connections := AList.delete (name cfg) (connections s)\<rparr>) of
        (es, s') \<Rightarrow> (ConsoleLog (Disconnected (name cfg)) # es, s'))"

definition ws_onerror :: "feed_config \<Rightarrow> service \<Rightarrow> effect list \<times> service" where
  "ws_onerror cfg s = ([ConsoleError (SocketError (name cfg))], s)"

text \<open>The browser changes the \<open>readyState\<close> of a transport before it fires an event.\<close>

definition setReadyState :: "nat \<Rightarrow> ready_state \<Rightarrow> service \<Rightarrow> service" where
  "setReadyState ws r s = s\<lparr>sockets := (sockets s)[ws := r]\<rparr>"

definition feedOpen :: "service \<Rightarrow> string \<Rightarrow> nat option" where
  "feedOpen s feedName =
     (case map_of (feeds s) feedName of
        None \<Rightarrow> None
      | Some feed \<Rightarrow> if readyState s (websocket feed) = OPEN then Some (websocket feed) else None)"

section \<open>Subscription table: \<open>subscribe\<close>, \<open>unsubscribe\<close>, the returned handle\<close>

definition subscriptionKey :: "string \<Rightarrow> string \<Rightarrow> string" where
  "subscriptionKey feedName chan = feedName @ '':'' @ chan"

text \<open>
  \<open>feed && feed.websocket && feed.websocket.readyState === WebSocket.OPEN\<close> guards
  every \<open>send\<close> of \<open>subscribe\<close> and \<open>unsubscribe\<close>; \<open>feedOpen\<close> gives the
  transport when the guard holds.
\<close>

definition subscribe :: "string \<Rightarrow> string \<Rightarrow> callback \<Rightarrow> service \<Rightarrow> effect list \<times> service" where
  "subscribe feedName chan cb s =
     (let key = subscriptionKey feedName chan;
          subs = (case map_of (subscribers s) key of None \<Rightarrow> [] | Some es \<Rightarrow> es);
          s' = s\<lparr>subscribers := AList.update key (set_add cb subs) (subscribers s)\<rparr>
      in (case feedOpen s' feedName of
            Some ws \<Rightarrow> [Send ws (Subscribe_action chan)]
          | None \<Rightarrow> [],
          s'))"

definition unsubscribe :: "string \<Rightarrow> string \<Rightarrow> callback \<Rightarrow> service \<Rightarrow> effect list \<times> service" where
  "unsubscribe feedName chan cb s =
     (let key = subscriptionKey feedName chan in
      case map_of (subscribers s) key of
        None \<Rightarrow> ([], s)
      | Some subs \<Rightarrow>
          (let subs' = set_delete cb subs;
               s' = s\<lparr>subscribers := AList.update key subs' (subscribers s)\<rparr>
           in (if set_size subs' = 0
               then (case feedOpen s' feedName of
                       Some ws \<Rightarrow> [Send ws (Unsubscribe_action chan)]
                     | None \<Rightarrow> [])
               else [],
               s')))"

text \<open>
  The function returned by \<open>subscribe(feedName, channel, callback)\<close>: it closes over
  \<open>key\<close> and \<open>callback\<close>, and deletes the callback from the set found under the key
  when it is invoked.
\<close>

definition unsubscribeHandle :: "string \<Rightarrow> string \<Rightarrow> callback \<Rightarrow> service \<Rightarrow> effect list \<times> service" where
  "unsubscribeHandle feedName chan cb s =
     (let key = subscriptionKey feedName chan in
      case map_of (subscribers s) key of
        None \<Rightarrow> ([], s)
      | Some subs \<Rightarrow> ([], s\<lparr>subscribers := AList.update key (set_delete cb subs) (subscribers s)\<rparr>))"

text \<open>A call of the subscription interface, and a sequence of such calls.\<close>

datatype api_call =
    Subscribe string string callback
  | Unsubscribe string string callback
  | InvokeHandle string string callback

fun api :: "api_call \<Rightarrow> service \<Rightarrow> effect list \<times> service" where
  "api (Subscribe f c cb) s = subscribe f c cb s"
| "api (Unsubscribe f c cb) s = unsubscribe f c cb s"
| "api (InvokeHandle f c cb) s = unsubscribeHandle f c cb s"

fun run_calls :: "api_call list \<Rightarrow> service \<Rightarrow> effect list \<times> service" where
  "run_calls [] s = ([], s)"
| "run_calls (c # cs) s =
     (case api c s of (es, s') \<Rightarrow>
        (case run_calls cs s' of (es', s'') \<Rightarrow> (es @ es', s'')))"

fun call_key :: "api_call \<Rightarrow> string" where
  "call_key (Subscribe f c cb) = subscriptionKey f c"
| "call_key (Unsubscribe f c cb) = subscriptionKey f c"
| "call_key (InvokeHandle f c cb) = subscriptionKey f c"

text \<open>The set under a key (no entry counts as an empty set), and its members in insertion order.\<close>

definition entriesOf :: "service \<Rightarrow> string \<Rightarrow> callback_set" where
  "entriesOf s key = (case map_of (subscribers s) key of None \<Rightarrow> [] | Some es \<Rightarrow> es)"

definition subscribersOf :: "service \<Rightarrow> string \<Rightarrow> callback list" where
  "subscribersOf s key = (case map_of (subscribers s) key of None \<Rightarrow> [] | Some es \<Rightarrow> members es)"

section \<open>Notification: \<open>notifySubscribers\<close>\<close>

text \<open>
  A subscriber callback is code of the caller. What it may do here: call the
  subscription interface any number of times, and then return or throw.
\<close>

record behaviour =
  calls :: "api_call list"
  throws :: bool

text \<open>
  The body of the arrow function given to \<open>forEach\<close>: the callback is called inside
  \<open>try\<close>, and the \<open>catch\<close> writes to the console.
\<close>

definition tryCallback :: "(callback \<Rightarrow> behaviour) \<Rightarrow> callback \<Rightarrow> parsed \<Rightarrow> service \<Rightarrow> effect list \<times> service" where
  "tryCallback cbs cb msg s =
     (case run_calls (calls (cbs cb)) s of (es, s') \<Rightarrow>
        (Callback cb msg # es @ (if throws (cbs cb) then [ConsoleError (SubscriberError cb)] else []), s'))"

text \<open>
  \<open>Set.prototype.forEach\<close> reads the live \<open>[[SetData]]\<close> list by index and re-reads
  its length after every call, so it skips a value deleted before its turn and
  visits a value added during the iteration. The \<open>Set\<close> object found under the key
  is never replaced or removed by the service, so reading it again through the key
  is reading the same object. The iteration need not end (a callback can delete and
  add itself again): the first argument bounds the number of steps, and \<open>None\<close> is
  an iteration that has not ended within it.
\<close>

fun forEach :: "(callback \<Rightarrow> behaviour) \<Rightarrow> nat \<Rightarrow> nat \<Rightarrow> string \<Rightarrow> parsed \<Rightarrow> service \<Rightarrow> (effect list \<times> service) option" where
  "forEach cbs 0 index key msg s = None"
| "forEach cbs (Suc fuel) index key msg s =
     (case map_of (subscribers s) key of
        None \<Rightarrow> Some ([], s)
      | Some entries \<Rightarrow>
          if index < length entries
          then (case entries ! index of
                  None \<Rightarrow> forEach cbs fuel (index + 1) key msg s
                | Some cb \<Rightarrow>
                    (case tryCallback cbs cb msg s of (es, s') \<Rightarrow>
                       (case forEach cbs fuel (index + 1) key msg s' of
                          None \<Rightarrow> None
                        | Some (es', s'') \<Rightarrow> Some (es @ es', s''))))
          else Some ([], s))"

datatype exn = TypeError | SyntaxError | ExternalError

text \<open>
  \<open>message.channel || 'default'\<close>: the default is taken when the property is absent
  and when it is the empty string; on \<open>null\<close> the property access throws.
\<close>

definition channelOf :: "message \<Rightarrow> string" where
  "channelOf m = (case channel m of None \<Rightarrow> ''default'' | Some c \<Rightarrow> if c = [] then ''default'' else c)"

definition notifySubscribers :: "(callback \<Rightarrow> behaviour) \<Rightarrow> nat \<Rightarrow> string \<Rightarrow> parsed \<Rightarrow> service \<Rightarrow> (effect list \<times> service \<times> exn option) option" where
  "notifySubscribers cbs fuel feedName msg s =
     (case msg of
        JNull \<Rightarrow> Some ([], s, Some TypeError)
      | JMsg m \<Rightarrow>
          (let key = subscriptionKey feedName (channelOf m) in
           case map_of (subscribers s) key of
             None \<Rightarrow> Some ([], s, None)
           | Some subs \<Rightarrow>
               (case forEach cbs fuel 0 key msg s of
                  None \<Rightarrow> None
                | Some (es, s') \<Rightarrow> Some (es, s', None))))"


section \<open>Message routing: \<open>handleMessage\<close>\<close>

text \<open>
  \<open>this.handlers\<close> (set by \<open>setupFeedHandlers\<close>) has a handler for four feed names.
  The handlers only act on collaborators outside this class (the DOM,
  \<open>window.enterpriseCore\<close>, \<open>window.multiMarketEngine\<close>, \<open>window.tradingEngine\<close>):
  they do not touch the state of the service. Whether such a collaborator throws
  on a message is given by the parameter \<open>ext\<close>; on \<open>null\<close> every handler throws at
  \<open>message.type\<close>.
\<close>

definition hasHandler :: "string \<Rightarrow> bool" where
  "hasHandler feedName = (feedName \<in> set [''market'', ''trades'', ''quotes'', ''news''])"

definition handlerThrows :: "(string \<Rightarrow> message \<Rightarrow> bool) \<Rightarrow> string \<Rightarrow> parsed \<Rightarrow> bool" where
  "handlerThrows ext feedName msg = (case msg of JNull \<Rightarrow> True | JMsg m \<Rightarrow> ext feedName m)"

definition noteMessage :: "string \<Rightarrow> parsed \<Rightarrow> service \<Rightarrow> service" where
  "noteMessage feedName msg s =
     (case map_of (feeds s) feedName of
        None \<Rightarrow> s
      | Some feed \<Rightarrow>
          s\<lparr>feeds := AList.update feedName
               (feed\<lparr>lastMessage := msg, messageCount := messageCount feed + 1,
                     status := ''connected''\<rparr>) (feeds s)\<rparr>)"

text \<open>
  \<open>handleMessage\<close>: the whole body is one \<open>try\<close> block, and the \<open>catch\<close> writes to the
  console. \<open>parse\<close> is \<open>JSON.parse\<close> (\<open>None\<close> when it throws a \<open>SyntaxError\<close>), \<open>now\<close>
  is \<open>Date.now()\<close>.
\<close>

definition handleMessage :: "(callback \<Rightarrow> behaviour) \<Rightarrow> (string \<Rightarrow> message \<Rightarrow> bool) \<Rightarrow> (string \<Rightarrow> parsed option) \<Rightarrow> nat \<Rightarrow> int \<Rightarrow> string \<Rightarrow> string \<Rightarrow> service \<Rightarrow> (effect list \<times> service) option" where
  "handleMessage cbs ext parse fuel now feedName data s =
     (case parse data of
        None \<Rightarrow> Some ([ConsoleError (MessageError feedName)], s)
      | Some msg \<Rightarrow>
          (let s1 = noteMessage feedName msg s in
           if hasHandler feedName \<and> handlerThrows ext feedName msg
           then Some ([Handler feedName msg, ConsoleError (MessageError feedName)], s1)
           else (let hs = (if hasHandler feedName then [Handler feedName msg] else []);
                     s2 = addToBuffer feedName msg now s1
                 in case notifySubscribers cbs fuel feedName msg s2 of
                      None \<Rightarrow> None
                    | Some (es, s3, None) \<Rightarrow> Some (hs @ es, s3)
                    | Some (es, s3, Some x) \<Rightarrow>
                        Some (hs @ es @ [ConsoleError (MessageError feedName)], s3))))"

text \<open>The messages of one feed are handled in the order they are received.\<close>

fun handleMessages :: "(callback \<Rightarrow> behaviour) \<Rightarrow> (string \<Rightarrow> message \<Rightarrow> bool) \<Rightarrow> (string \<Rightarrow> parsed option) \<Rightarrow> nat \<Rightarrow> string \<Rightarrow> (int \<times> string) list \<Rightarrow> service \<Rightarrow> (effect list \<times> service) option" where
  "handleMessages cbs ext parse fuel feedName [] s = Some ([], s)"
| "handleMessages cbs ext parse fuel feedName ((now, data) # rest) s =
     (case handleMessage cbs ext parse fuel now feedName data s of
        None \<Rightarrow> None
      | Some (es, s') \<Rightarrow>
          (case handleMessages cbs ext parse fuel feedName rest s' of
             None \<Rightarrow> None
           | Some (es', s'') \<Rightarrow> Some (es @ es', s'')))"

section \<open>Health monitoring: \<open>sendHeartbeat\<close>, \<open>checkConnectionHealth\<close>\<close>

definition sendHeartbeat :: "int \<Rightarrow> service \<Rightarrow> effect list" where
  "sendHeartbeat now s =
     concat (map (\<lambda>(feedName, feed).
                    if readyState s (websocket feed) = OPEN
                    then [Send (websocket feed) (Heartbeat now)] else [])
                 (feeds s))"

text \<open>
  \<open>Date.now() - (feed.lastMessage?.timestamp || 0)\<close>: the timestamp is the one the
  message itself carries; it counts as 0 when there is no last message, when the
  message has no timestamp, and when the timestamp is 0.
\<close>

definition timeSinceLastMessage :: "int \<Rightarrow> feed \<Rightarrow> int" where
  "timeSinceLastMessage now feed =
     now - (case lastMessage feed of
              JNull \<Rightarrow> 0
            | JMsg m \<Rightarrow> (case timestamp m of None \<Rightarrow> 0 | Some t \<Rightarrow> t))"

definition checkFeed :: "int \<Rightarrow> string \<times> feed \<Rightarrow> effect list \<times> service \<Rightarrow> effect list \<times> service" where
  "checkFeed now entry acc =
     (case entry of (feedName, feed) \<Rightarrow>
        (case acc of (es, s) \<Rightarrow>
           if timeSinceLastMessage now feed > 60000
           then (if readyState s (websocket feed) \<noteq> OPEN
                 then (case attemptReconnect (config feed) s of
                         (es', s') \<Rightarrow> (es @ ConsoleWarn (NoMessage feedName) # es', s'))
                 else (es @ [ConsoleWarn (NoMessage feedName)], s))
           else (es, s)))"

text \<open>
  The loop over \<open>this.feeds\<close>; the body only writes \<open>this.reconnectAttempts\<close>, so the
  map iterated over is the one at the start of the call.
\<close>

definition checkConnectionHealth :: "int \<Rightarrow> service \<Rightarrow> effect list \<times> service" where
  "checkConnectionHealth now s = foldl (\<lambda>acc entry. checkFeed now entry acc) ([], s) (feeds s)"

section \<open>Public queries\<close>

definition getConnectionStatus :: "service \<Rightarrow> string \<Rightarrow> string" where
  "getConnectionStatus s feedName =
     (case map_of (feeds s) feedName of None \<Rightarrow> ''disconnected'' | Some feed \<Rightarrow> status feed)"

record feed_stats =
  stats_status :: string
  stats_messageCount :: int
  stats_lastMessage :: parsed
  stats_reconnectAttempts :: int

definition getFeedStats :: "service \<Rightarrow> string \<Rightarrow> feed_stats option" where
  "getFeedStats s feedName =
     (case map_of (feeds s) feedName of
        None \<Rightarrow> None
      | Some feed \<Rightarrow>
          Some \<lparr>stats_status = status feed, stats_messageCount = messageCount feed,
                stats_lastMessage = lastMessage feed,
                stats_reconnectAttempts = attemptsOf s feedName\<rparr>)"

section \<open>A transport that never opens\<close>

text \<open>
  One connection attempt that fails. Either the constructor throws, or the transport
  is created and the browser then closes it without opening it: it sets the
  \<open>readyState\<close> to \<open>CLOSED\<close> and fires \<open>error\<close> and \<open>close\<close>.
\<close>

definition failedAttempt :: "bool \<Rightarrow> feed_config \<Rightarrow> service \<Rightarrow> effect list \<times> service" where
  "failedAttempt constructorThrows cfg s =
     (if constructorThrows then connectFeed True cfg s
      else (case connectFeed False cfg s of (e1, s1) \<Rightarrow>
             (case ws_onerror cfg (setReadyState (length (sockets s)) CLOSED s1) of (e2, s2) \<Rightarrow>
                (case ws_onclose cfg s2 of (e3, s3) \<Rightarrow> (e1 @ e2 @ e3, s3)))))"

text \<open>
  Every timer set by \<open>attemptReconnect\<close> fires and calls \<open>connectFeed\<close> again, and
  every attempt fails. The number bounds the attempts that are waited for; the run
  ends earlier when an attempt sets no timer.
\<close>

fun alwaysFailing :: "bool \<Rightarrow> nat \<Rightarrow> feed_config \<Rightarrow> service \<Rightarrow> effect list \<times> service" where
  "alwaysFailing constructorThrows 0 cfg s = ([], s)"
| "alwaysFailing constructorThrows (Suc n) cfg s =
     (case failedAttempt constructorThrows cfg s of (es, s') \<Rightarrow>
        if SetTimeout cfg \<in> set es
        then (case alwaysFailing constructorThrows n cfg s' of (es', s'') \<Rightarrow> (es @ es', s''))
        else (es, s'))"

text \<open>
  The connection attempts made and the timers set for a feed in a list of effects;
  what the status queries read of a feed entry.
\<close>

fun attemptsMade :: "effect list \<Rightarrow> nat" where
  "attemptsMade [] = 0"
| "attemptsMade (NewWebSocket u # es) = Suc (attemptsMade es)"
| "attemptsMade (e # es) = attemptsMade es"

definition timersSet :: "feed_config \<Rightarrow> effect list \<Rightarrow> nat" where
  "timersSet cfg es = length (filter (\<lambda>e. e = SetTimeout cfg) es)"

definition statusOf :: "service \<Rightarrow> string \<Rightarrow> (string \<times> parsed \<times> int) option" where
  "statusOf s f = map_option (\<lambda>fd. (status fd, lastMessage fd, messageCount fd)) (map_of (feeds s) f)"

section \<open>Observations on a health check\<close>

text \<open>
  The feeds whose last message is more than 60 s old, the warnings logged for them,
  and whether every feed's transport reports itself open.
\<close>

definition stale :: "int \<Rightarrow> string \<times> feed \<Rightarrow> bool" where
  "stale now entry = (60000 < timeSinceLastMessage now (snd entry))"

definition warnings :: "int \<Rightarrow> service \<Rightarrow> effect list" where
  "warnings now s = map (\<lambda>entry. ConsoleWarn (NoMessage (fst entry))) (filter (stale now) (feeds s))"

definition allOpen :: "service \<Rightarrow> bool" where
  "allOpen s = list_all (\<lambda>entry. readyState s (websocket (snd entry)) = OPEN) (feeds s)"

section \<open>Observations on a sequence of calls\<close>

text \<open>
  How often a wire message was sent; whether a call is a \<open>subscribe\<close> or
  \<open>unsubscribe\<close> on a given feed and channel; the sizes of the subscriber set
  before, between and after the calls of a sequence; and the number of steps in
  such a list of sizes that go from zero to nonzero, and from nonzero to zero.
\<close>

fun sends :: "wire \<Rightarrow> effect list \<Rightarrow> nat" where
  "sends w [] = 0"
| "sends w (Send ws w' # es) = (if w' = w then 1 else 0) + sends w es"
| "sends w (e # es) = sends w es"

fun onChannel :: "string \<Rightarrow> string \<Rightarrow> api_call \<Rightarrow> bool" where
  "onChannel f c (Subscribe f' c' cb) = (f' = f \<and> c' = c)"
| "onChannel f c (Unsubscribe f' c' cb) = (f' = f \<and> c' = c)"
| "onChannel f c (InvokeHandle f' c' cb) = False"

fun isSubscribe :: "api_call \<Rightarrow> bool" where
  "isSubscribe (Subscribe f c cb) = True"
| "isSubscribe a = False"

definition sizeOf :: "service \<Rightarrow> string \<Rightarrow> nat" where
  "sizeOf s key = length (subscribersOf s key)"

fun sizes :: "string \<Rightarrow> api_call list \<Rightarrow> service \<Rightarrow> nat list" where
  "sizes key [] s = [sizeOf s key]"
| "sizes key (a # cs) s = sizeOf s key # sizes key cs (snd (api a s))"

fun rises :: "nat list \<Rightarrow> nat" where
  "rises (x # y # zs) = (if x = 0 \<and> 0 < y then 1 else 0) + rises (y # zs)"
| "rises zs = 0"

fun falls :: "nat list \<Rightarrow> nat" where
  "falls (x # y # zs) = (if 0 < x \<and> y = 0 then 1 else 0) + falls (y # zs)"
| "falls zs = 0"

section \<open>Observations on a notification\<close>

text \<open>The callbacks called, in order, each with the message it was given.\<close>

fun invoked :: "effect list \<Rightarrow> (callback \<times> parsed) list" where
  "invoked [] = []"
| "invoked (Callback cb msg # es) = (cb, msg) # invoked es"
| "invoked (e # es) = invoked es"

definition calledBy :: "(effect list \<times> service \<times> exn option) option \<Rightarrow> callback list option" where
  "calledBy r = map_option (\<lambda>(es, s', x). map fst (invoked es)) r"

text \<open>A callback that makes no call on the subscriber set under the given key.\<close>

definition quietOn :: "(callback \<Rightarrow> behaviour) \<Rightarrow> string \<Rightarrow> callback \<Rightarrow> bool" where
  "quietOn cbs key cb = list_all (\<lambda>a. call_key a \<noteq> key) (calls (cbs cb))"

text \<open>The same callbacks, none of them throwing; and the console lines of the \<open>catch\<close>.\<close>

definition calm :: "(callback \<Rightarrow> behaviour) \<Rightarrow> callback \<Rightarrow> behaviour" where
  "calm cbs cb = (cbs cb)\<lparr>throws := False\<rparr>"

fun isSubscriberError :: "effect \<Rightarrow> bool" where
  "isSubscriberError (ConsoleError (SubscriberError cb)) = True"
| "isSubscriberError e = False"

definition withoutSubscriberErrors :: "effect list \<Rightarrow> effect list" where
  "withoutSubscriberErrors es = filter (\<lambda>e. \<not> isSubscriberError e) es"

section \<open>Scenarios\<close>

text \<open>A numbered message without channel and timestamp, arriving at the given time.\<close>

definition numbered :: "nat \<Rightarrow> parsed \<times> int" where
  "numbered i = (JMsg \<lparr>channel = None, timestamp = None, payload = [(''seq'', replicate i CHR ''I'')]\<rparr>, int i)"

text \<open>
  The \<open>market\<close> feed of \<open>initializeConnections\<close>, connected and opened, and the
  subscription calls used below.
\<close>

definition market_config :: feed_config where
  "market_config = \<lparr>name = ''market'', url = ''wss://stream.rayzw2e.com/market'',
     reconnectInterval = 5000, maxReconnectAttempts = 10\<rparr>"

definition market_open :: service where
  "market_open = snd (ws_onopen market_config 0 (setReadyState 0 OPEN (snd (connectFeed False market_config empty_service))))"

definition btc_calls :: "api_call list" where
  "btc_calls = [Subscribe ''market'' ''BTCUSDT'' 1, Subscribe ''market'' ''BTCUSDT'' 2,
                Unsubscribe ''market'' ''BTCUSDT'' 1, Unsubscribe ''market'' ''BTCUSDT'' 2]"

definition one_subscriber :: service where
  "one_subscriber = snd (subscribe ''market'' ''BTCUSDT'' 1 market_open)"

definition two_subscribers :: service where
  "two_subscribers = snd (subscribe ''market'' ''BTCUSDT'' 2 one_subscriber)"

text \<open>
  A message for the channel \<open>BTCUSDT\<close>; callbacks of which the first unsubscribes
  the second, subscribes a third, or throws.
\<close>

definition btc_tick :: message where
  "btc_tick = \<lparr>channel = Some ''BTCUSDT'', timestamp = Some 1000, payload = [(''type'', ''price'')]\<rparr>"

definition unsubscriber :: "callback \<Rightarrow> behaviour" where
  "unsubscriber cb = \<lparr>calls = (if cb = 1 then [Unsubscribe ''market'' ''BTCUSDT'' 2] else []), throws = False\<rparr>"

definition recruiter :: "callback \<Rightarrow> behaviour" where
  "recruiter cb = \<lparr>calls = (if cb = 1 then [Subscribe ''market'' ''BTCUSDT'' 3] else []), throws = False\<rparr>"

definition thrower :: "callback \<Rightarrow> behaviour" where
  "thrower cb = \<lparr>calls = [], throws = (cb = 1)\<rparr>"

text \<open>A callback that unsubscribes itself and subscribes itself again.\<close>

definition resubscriber :: "callback \<Rightarrow> behaviour" where
  "resubscriber cb = \<lparr>calls = [Unsubscribe ''market'' ''BTCUSDT'' cb, Subscribe ''market'' ''BTCUSDT'' cb],
     throws = False\<rparr>"

text \<open>
  A stand-in for \<open>JSON.parse\<close> that agrees with it on the payloads \<open>{}\<close>, \<open>null\<close>
  and on payloads that are not JSON; external collaborators that never throw, and
  that always throw; the opened market feed with one subscriber of the channel
  \<open>default\<close>.
\<close>

definition empty_object :: message where
  "empty_object = \<lparr>channel = None, timestamp = None, payload = []\<rparr>"

definition sample_parse :: "string \<Rightarrow> parsed option" where
  "sample_parse data =
     (if data = ''{}'' then Some (JMsg empty_object)
      else if data = ''null'' then Some JNull
      else None)"

definition sound_collaborators :: "string \<Rightarrow> message \<Rightarrow> bool" where
  "sound_collaborators feedName m = False"

definition broken_collaborators :: "string \<Rightarrow> message \<Rightarrow> bool" where
  "broken_collaborators feedName m = True"

definition default_subscriber :: service where
  "default_subscriber = snd (subscribe ''market'' ''default'' 1 market_open)"

text \<open>
  Callbacks that do nothing; the market feed with one subscriber of \<open>default\<close> and
  one of \<open>BTCUSDT\<close>.
\<close>

definition idle :: "callback \<Rightarrow> behaviour" where
  "idle cb = \<lparr>calls = [], throws = False\<rparr>"

definition default_and_btc :: service where
  "default_and_btc = snd (subscribe ''market'' ''BTCUSDT'' 2 default_subscriber)"

text \<open>
  The market feed with two subscribers of \<open>default\<close>, and callbacks of which the
  first unsubscribes the second from \<open>default\<close>.
\<close>

definition default_pair :: service where
  "default_pair = snd (subscribe ''market'' ''default'' 2 default_subscriber)"

definition default_unsubscriber :: "callback \<Rightarrow> behaviour" where
  "default_unsubscriber cb =
     \<lparr>calls = (if cb = 1 then [Unsubscribe ''market'' ''default'' 2] else []), throws = False\<rparr>"

text \<open>
  The test configuration of the market feed (three reconnect attempts, no delay);
  the market feed's entry after it has opened, and the state in which its transport
  has closed.
\<close>

definition market_test_config :: feed_config where
  "market_test_config = \<lparr>name = ''market'', url = ''wss://stream.rayzw2e.com/market'',
     reconnectInterval = 0, maxReconnectAttempts = 3\<rparr>"

definition market_feed :: feed where
  "market_feed = \<lparr>websocket = 0, config = market_config, status = ''connecting'',
     lastMessage = JNull, messageCount = 0\<rparr>"

definition market_closed :: service where
  "market_closed = setReadyState 0 CLOSED market_open"

section \<open>Properties of the ring buffer\<close>

lemma drop_cap_append:
  "drop (length (drop (length xs - n) xs @ ys) - n) (drop (length xs - n) xs @ ys)
   = drop (length (xs @ ys) - n) (xs @ ys)"
proof -
  have "drop (length xs - n) xs @ ys = drop (length xs - n) (xs @ ys)" by simp
  moreover have "length (drop (length xs - n) (xs @ ys)) - n + (length xs - n) = length (xs @ ys) - n"
    by simp
  ultimately show ?thesis by (simp only: drop_drop)
qed

lemma feedBufferOf_addToBuffer:
  "feedBufferOf (addToBuffer f msg now s) f =
     drop (length (feedBufferOf s f @ [buffered msg now]) - maxBufferSize)
          (feedBufferOf s f @ [buffered msg now])"
  by (simp add: feedBufferOf_def addToBuffer_def Let_def update_conv')

lemma feedBufferOf_appendAll:
  "ms \<noteq> [] \<Longrightarrow>
   feedBufferOf (appendAll f ms s) f =
     drop (length (feedBufferOf s f @ map (\<lambda>(msg, now). buffered msg now) ms) - maxBufferSize)
          (feedBufferOf s f @ map (\<lambda>(msg, now). buffered msg now) ms)"
proof (induction ms arbitrary: s)
  case Nil
  then show ?case by simp
next
  case (Cons p ms)
  obtain msg now where p: "p = (msg, now)" by (cases p)
  let ?E = "\<lambda>(msg, now). buffered msg now"
  let ?b0 = "feedBufferOf s f @ [buffered msg now]"
  let ?s1 = "addToBuffer f msg now s"
  have s1: "feedBufferOf ?s1 f = drop (length ?b0 - maxBufferSize) ?b0"
    by (rule feedBufferOf_addToBuffer)
  show ?case
  proof (cases "ms = []")
    case True
    then show ?thesis by (simp add: p s1)
  next
    case False
    have "feedBufferOf (appendAll f (p # ms) s) f = feedBufferOf (appendAll f ms ?s1) f"
      by (simp add: p)
    also have "\<dots> = drop (length (feedBufferOf ?s1 f @ map ?E ms) - maxBufferSize)
                         (feedBufferOf ?s1 f @ map ?E ms)"
      by (rule Cons.IH [OF False])
    also have "\<dots> = drop (length (?b0 @ map ?E ms) - maxBufferSize) (?b0 @ map ?E ms)"
      unfolding s1 by (rule drop_cap_append)
    also have "?b0 @ map ?E ms = feedBufferOf s f @ map ?E (p # ms)"
      by (simp add: p)
    finally show ?thesis .
  qed
qed

lemma cleanBuffer_lookup:
  "map_of (buffer (cleanBuffer now s)) f = map_option (filter (fresh now)) (map_of (buffer s) f)"
  by (induction "buffer s" arbitrary: s) (auto simp: cleanBuffer_def map_of_map split: prod.splits)

lemma feedBufferOf_cleanBuffer:
  "feedBufferOf (cleanBuffer now s) f = filter (fresh now) (feedBufferOf s f)"
  by (cases "map_of (buffer s) f") (simp_all add: feedBufferOf_def cleanBuffer_lookup)

lemma feedBufferOf_addToBuffer_other:
  "g \<noteq> f \<Longrightarrow> feedBufferOf (addToBuffer f msg now s) g = feedBufferOf s g"
  by (simp add: feedBufferOf_def addToBuffer_def Let_def update_conv')

lemma feedBufferOf_empty: "feedBufferOf empty_service f = []"
  by (simp add: feedBufferOf_def empty_service_def)

lemma getBuffer_all:
  "int (length (feedBufferOf s f)) \<le> limit \<Longrightarrow> 0 < limit \<Longrightarrow> getBuffer s f limit = feedBufferOf s f"
  by (simp add: getBuffer_def slice_from_def)

text \<open>
  C7. After an append the feed's buffer holds at most 1000 entries (and the other
  feeds' buffers are as before, so a bound that held for every feed still holds);
  after a cleaning pass every stored entry has a timestamp less than 5 minutes
  (300000 ms) before the time of the pass; and after 1500 appends to a feed,
  \<open>getBuffer(feed, 2000)\<close> is the last 1000 of the appended messages, oldest first,
  each position once.
\<close>

theorem ring_buffer_cap_and_window:
  "length (feedBufferOf (addToBuffer f msg now s) f) \<le> 1000
   \<and> ((\<forall>g. length (feedBufferOf s g) \<le> 1000) \<longrightarrow>
        (\<forall>g. length (feedBufferOf (addToBuffer f msg now s) g) \<le> 1000)
        \<and> (\<forall>g. length (feedBufferOf (cleanBuffer now s) g) \<le> 1000))
   \<and> (\<forall>m \<in> set (feedBufferOf (cleanBuffer now s) f). \<exists>t. timestamp m = Some t \<and> now - t < 300000)
   \<and> (length ms = 1500 \<longrightarrow>
        getBuffer (appendAll f ms s) f 2000 = map (\<lambda>(msg, now). buffered msg now) (drop 500 ms)
        \<and> length (getBuffer (appendAll f ms s) f 2000) = 1000)"
proof (intro conjI impI)
  show cap: "length (feedBufferOf (addToBuffer f msg now s) f) \<le> 1000"
    by (simp add: feedBufferOf_addToBuffer maxBufferSize_def)
  show "\<forall>g. length (feedBufferOf (addToBuffer f msg now s) g) \<le> 1000"
    if "\<forall>g. length (feedBufferOf s g) \<le> 1000"
  proof
    fix g
    show "length (feedBufferOf (addToBuffer f msg now s) g) \<le> 1000"
      using cap that by (cases "g = f") (simp_all add: feedBufferOf_addToBuffer_other)
  qed
  show "\<forall>g. length (feedBufferOf (cleanBuffer now s) g) \<le> 1000"
    if "\<forall>g. length (feedBufferOf s g) \<le> 1000"
  proof
    fix g
    have "length (filter (fresh now) (feedBufferOf s g)) \<le> length (feedBufferOf s g)"
      by (rule length_filter_le)
    moreover have "length (feedBufferOf s g) \<le> 1000"
      using that by blast
    ultimately have "length (filter (fresh now) (feedBufferOf s g)) \<le> 1000"
      by (rule le_trans)
    then show "length (feedBufferOf (cleanBuffer now s) g) \<le> 1000"
      by (simp only: feedBufferOf_cleanBuffer)
  qed
  show "\<forall>m \<in> set (feedBufferOf (cleanBuffer now s) f). \<exists>t. timestamp m = Some t \<and> now - t < 300000"
    by (auto simp: feedBufferOf_cleanBuffer fresh_def maxAge_def split: option.splits)
next
  assume len: "length ms = 1500"
  let ?E = "\<lambda>(msg, now). buffered msg now"
  from len have ne: "ms \<noteq> []" by auto
  have "feedBufferOf (appendAll f ms s) f =
          drop (length (feedBufferOf s f @ map ?E ms) - maxBufferSize) (feedBufferOf s f @ map ?E ms)"
    by (rule feedBufferOf_appendAll [OF ne])
  also have "\<dots> = drop 500 (map ?E ms)"
    using len by (simp add: maxBufferSize_def)
  finally have fb: "feedBufferOf (appendAll f ms s) f = map ?E (drop 500 ms)"
    by (simp add: drop_map)
  have "getBuffer (appendAll f ms s) f 2000 = feedBufferOf (appendAll f ms s) f"
    by (rule getBuffer_all) (simp_all add: fb len)
  with fb show "getBuffer (appendAll f ms s) f 2000 = map ?E (drop 500 ms)" by simp
  then show "length (getBuffer (appendAll f ms s) f 2000) = 1000" using len by simp
qed

theorem ring_buffer_cap_and_window_witness:
  "length (map numbered [0..<1500]) = 1500
   \<and> getBuffer (appendAll ''market'' (map numbered [0..<1500]) empty_service) ''market'' 2000
       = map (\<lambda>(msg, now). buffered msg now) (map numbered [500..<1500])
   \<and> feedBufferOf (cleanBuffer 400000 (appendAll ''market'' [numbered 0, numbered 200000] empty_service)) ''market''
       = [buffered (fst (numbered 200000)) 200000]
   \<and> (\<exists>t. timestamp (buffered (fst (numbered 200000)) 200000) = Some t \<and> 400000 - t < 300000)"
proof -
  have len: "length (map numbered [0..<1500]) = 1500" by simp
  have d: "drop 500 (map numbered [0..<1500]) = map numbered [500..<1500]"
    by (simp add: drop_map)
  have clean: "feedBufferOf (cleanBuffer 400000 (appendAll ''market'' [numbered 0, numbered 200000] empty_service)) ''market''
       = [buffered (fst (numbered 200000)) 200000]"
    by (simp add: feedBufferOf_cleanBuffer feedBufferOf_addToBuffer numbered_def fresh_def
        maxAge_def buffered_def maxBufferSize_def feedBufferOf_empty)
  show ?thesis
    using ring_buffer_cap_and_window
      [of "''market''" undefined 400000 "appendAll ''market'' [numbered 0, numbered 200000] empty_service"
          "map numbered [0..<1500]"]
      ring_buffer_cap_and_window
      [of "''market''" undefined 0 empty_service "map numbered [0..<1500]"]
    by (simp only: len d clean) simp
qed

section \<open>Wire actions of \<open>subscribe\<close> and \<open>unsubscribe\<close>\<close>

lemma feedOpen_subscribers [simp]: "feedOpen (s\<lparr>subscribers := x\<rparr>) f = feedOpen s f"
  by (simp add: feedOpen_def readyState_def split: option.splits)

lemma subscribe_feedOpen [simp]: "feedOpen (snd (subscribe f c cb s)) g = feedOpen s g"
  by (simp add: subscribe_def Let_def)

lemma unsubscribe_feedOpen [simp]: "feedOpen (snd (unsubscribe f c cb s)) g = feedOpen s g"
  by (simp add: unsubscribe_def Let_def split: option.splits)

lemma unsubscribeHandle_feedOpen [simp]: "feedOpen (snd (unsubscribeHandle f c cb s)) g = feedOpen s g"
  by (simp add: unsubscribeHandle_def Let_def split: option.splits)

lemma api_feedOpen [simp]: "feedOpen (snd (api a s)) g = feedOpen s g"
  by (cases a) simp_all

lemma sends_append [simp]: "sends w (es @ es') = sends w es + sends w es'"
  by (induction w es rule: sends.induct) simp_all

lemma run_calls_Cons_fst: "fst (run_calls (a # cs) s) = fst (api a s) @ fst (run_calls cs (snd (api a s)))"
  by (simp split: prod.splits)

lemma run_calls_Cons_snd: "snd (run_calls (a # cs) s) = snd (run_calls cs (snd (api a s)))"
  by (simp split: prod.splits)

lemma run_calls_feedOpen [simp]: "feedOpen (snd (run_calls cs s)) g = feedOpen s g"
  by (induction cs arbitrary: s) (simp_all add: run_calls_Cons_snd del: run_calls.simps(2))

lemma members_append [simp]: "members (es @ es') = members es @ members es'"
  by (induction es rule: members.induct) simp_all

lemma set_members [simp]: "set (members es) = {c. Some c \<in> set es}"
  by (induction es rule: members.induct) auto

lemma members_set_delete: "members (set_delete cb es) = removeAll cb (members es)"
  by (induction es rule: members.induct) (auto simp: set_delete_def)

lemma members_set_add: "members (set_add cb es) = (if cb \<in> set (members es) then members es else members es @ [cb])"
  by (auto simp: set_add_def) 

lemma subscribe_effects: "feedOpen s f = Some ws \<Longrightarrow> fst (subscribe f c cb s) = [Send ws (Subscribe_action c)]"
  by (simp add: subscribe_def Let_def)

lemma subscribersOf_subscribe:
  "subscribersOf (snd (subscribe f c cb s)) (subscriptionKey f c) =
     (let ms = subscribersOf s (subscriptionKey f c) in if cb \<in> set ms then ms else ms @ [cb])"
  by (simp add: subscribe_def subscribersOf_def Let_def update_conv' members_set_add split: option.splits)

lemma subscribersOf_unsubscribe:
  "subscribersOf (snd (unsubscribe f c cb s)) (subscriptionKey f c) =
     removeAll cb (subscribersOf s (subscriptionKey f c))"
  by (simp add: unsubscribe_def subscribersOf_def Let_def update_conv' members_set_delete split: option.splits)

lemma subscribersOf_unsubscribeHandle:
  "subscribersOf (snd (unsubscribeHandle f c cb s)) (subscriptionKey f c) =
     removeAll cb (subscribersOf s (subscriptionKey f c))"
  by (simp add: unsubscribeHandle_def subscribersOf_def Let_def update_conv' members_set_delete split: option.splits)

lemma unsubscribe_effects:
  "feedOpen s f = Some ws \<Longrightarrow>
   fst (unsubscribe f c cb s) =
     (if map_of (subscribers s) (subscriptionKey f c) \<noteq> None
         \<and> subscribersOf (snd (unsubscribe f c cb s)) (subscriptionKey f c) = []
      then [Send ws (Unsubscribe_action c)] else [])"
  by (auto simp add: unsubscribe_def subscribersOf_def Let_def update_conv' set_size_def split: option.splits)

lemma map_of_None_subscribersOf: "map_of (subscribers s) key = None \<Longrightarrow> subscribersOf s key = []"
  by (simp add: subscribersOf_def)


lemma api_effects_subscribe_count:
  "feedOpen s f = Some ws \<Longrightarrow> onChannel f c a \<Longrightarrow>
   sends (Subscribe_action c) (fst (api a s)) = (if isSubscribe a then 1 else 0)"
  by (cases a) (simp_all add: subscribe_effects unsubscribe_effects)

lemma sends_subscribe_count:
  "feedOpen s f = Some ws \<Longrightarrow> list_all (onChannel f c) cs \<Longrightarrow>
   sends (Subscribe_action c) (fst (run_calls cs s)) = length (filter isSubscribe cs)"
proof (induction cs arbitrary: s)
  case Nil
  then show ?case by simp
next
  case (Cons a cs)
  from Cons.prems have a: "onChannel f c a" and cs: "list_all (onChannel f c) cs" by simp_all
  have "feedOpen (snd (api a s)) f = Some ws" using Cons.prems(1) by simp
  from Cons.IH [OF this cs] api_effects_subscribe_count [OF Cons.prems(1) a]
  show ?case by (simp add: run_calls_Cons_fst del: run_calls.simps(2))
qed

lemma sizes_head: "sizes key cs s = sizeOf s key # tl (sizes key cs s)"
  by (cases cs) simp_all

lemma sizeOf_api:
  "onChannel f c a \<Longrightarrow>
   sizeOf (snd (api a s)) (subscriptionKey f c) =
     (case a of
        Subscribe f' c' cb \<Rightarrow>
          (if cb \<in> set (subscribersOf s (subscriptionKey f c)) then sizeOf s (subscriptionKey f c)
           else Suc (sizeOf s (subscriptionKey f c)))
      | Unsubscribe f' c' cb \<Rightarrow> length (removeAll cb (subscribersOf s (subscriptionKey f c)))
      | InvokeHandle f' c' cb \<Rightarrow> 0)"
  by (cases a) (simp_all add: sizeOf_def subscribersOf_subscribe subscribersOf_unsubscribe Let_def)

lemma rise_needs_subscribe:
  "onChannel f c a \<Longrightarrow> sizeOf s (subscriptionKey f c) = 0 \<Longrightarrow>
   0 < sizeOf (snd (api a s)) (subscriptionKey f c) \<Longrightarrow> isSubscribe a"
  by (cases a) (simp_all add: sizeOf_def subscribersOf_unsubscribe)

lemma rises_le_subscribes:
  "list_all (onChannel f c) cs \<Longrightarrow>
   rises (sizes (subscriptionKey f c) cs s) \<le> length (filter isSubscribe cs)"
proof (induction cs arbitrary: s)
  case Nil
  then show ?case by simp
next
  case (Cons a cs)
  let ?k = "subscriptionKey f c"
  let ?s1 = "snd (api a s)"
  from Cons.prems have a: "onChannel f c a" and cs: "list_all (onChannel f c) cs" by simp_all
  obtain rest where rest: "sizes ?k cs ?s1 = sizeOf ?s1 ?k # rest"
    using sizes_head by blast
  have "rises (sizes ?k (a # cs) s) =
          (if sizeOf s ?k = 0 \<and> 0 < sizeOf ?s1 ?k then 1 else 0) + rises (sizes ?k cs ?s1)"
    by (simp add: rest)
  moreover have "(if sizeOf s ?k = 0 \<and> 0 < sizeOf ?s1 ?k then 1 else 0) \<le> (if isSubscribe a then 1 else (0::nat))"
    using rise_needs_subscribe [OF a] by auto
  moreover have "length (filter isSubscribe (a # cs)) = (if isSubscribe a then 1 else 0) + length (filter isSubscribe cs)"
    by simp
  moreover note Cons.IH [OF cs, of ?s1]
  ultimately show ?case by linarith
qed

lemma fall_sends_unsubscribe:
  assumes "feedOpen s f = Some ws" "onChannel f c a"
    "0 < sizeOf s (subscriptionKey f c)" "sizeOf (snd (api a s)) (subscriptionKey f c) = 0"
  shows "fst (api a s) = [Send ws (Unsubscribe_action c)]"
proof (cases a)
  case (Subscribe f' c' cb)
  with assms show ?thesis
    by (simp add: sizeOf_def subscribersOf_subscribe Let_def split: if_splits)
next
  case (Unsubscribe f' c' cb)
  from assms(3) have "map_of (subscribers s) (subscriptionKey f c) \<noteq> None"
    by (auto simp: sizeOf_def subscribersOf_def split: option.splits)
  with assms Unsubscribe show ?thesis
    by (simp add: unsubscribe_effects sizeOf_def)
next
  case (InvokeHandle f' c' cb)
  with assms show ?thesis by simp
qed

lemma falls_le_unsubscribe_sends:
  "feedOpen s f = Some ws \<Longrightarrow> list_all (onChannel f c) cs \<Longrightarrow>
   falls (sizes (subscriptionKey f c) cs s) \<le> sends (Unsubscribe_action c) (fst (run_calls cs s))"
proof (induction cs arbitrary: s)
  case Nil
  then show ?case by simp
next
  case (Cons a cs)
  let ?k = "subscriptionKey f c"
  let ?s1 = "snd (api a s)"
  from Cons.prems have a: "onChannel f c a" and cs: "list_all (onChannel f c) cs" by simp_all
  have op: "feedOpen ?s1 f = Some ws" using Cons.prems(1) by simp
  obtain rest where rest: "sizes ?k cs ?s1 = sizeOf ?s1 ?k # rest"
    using sizes_head by blast
  have "falls (sizes ?k (a # cs) s) =
          (if 0 < sizeOf s ?k \<and> sizeOf ?s1 ?k = 0 then 1 else 0) + falls (sizes ?k cs ?s1)"
    by (simp add: rest)
  moreover have "(if 0 < sizeOf s ?k \<and> sizeOf ?s1 ?k = 0 then 1 else 0)
                   \<le> sends (Unsubscribe_action c) (fst (api a s))"
    using fall_sends_unsubscribe [OF Cons.prems(1) a] by auto
  moreover have "sends (Unsubscribe_action c) (fst (run_calls (a # cs) s))
                   = sends (Unsubscribe_action c) (fst (api a s)) + sends (Unsubscribe_action c) (fst (run_calls cs ?s1))"
    by (simp add: run_calls_Cons_fst del: run_calls.simps(2))
  moreover note Cons.IH [OF op cs]
  ultimately show ?case by linarith
qed

text \<open>
  C1 (as amended). While the feed's connection is open, in every sequence of
  \<open>subscribe\<close> and \<open>unsubscribe\<close> calls on one (feed, channel): the wire-level
  subscribe action is sent once by every \<open>subscribe\<close> call, whether or not the
  subscriber set was empty, hence at least once for every step of the set from zero
  to nonzero members; an \<open>unsubscribe\<close> call that takes the set from nonzero to
  zero members sends the wire-level unsubscribe action exactly once, and one that
  leaves members in the set sends nothing, hence the unsubscribe action is sent at
  least once for every step from nonzero to zero.
\<close>

theorem wire_actions_follow_calls:
  assumes "feedOpen s f = Some ws" and "list_all (onChannel f c) cs"
  shows "sends (Subscribe_action c) (fst (run_calls cs s)) = length (filter isSubscribe cs)
    \<and> rises (sizes (subscriptionKey f c) cs s) \<le> sends (Subscribe_action c) (fst (run_calls cs s))
    \<and> falls (sizes (subscriptionKey f c) cs s) \<le> sends (Unsubscribe_action c) (fst (run_calls cs s))
    \<and> fst (subscribe f c cb s) = [Send ws (Subscribe_action c)]
    \<and> (0 < sizeOf s (subscriptionKey f c) \<and> sizeOf (snd (unsubscribe f c cb s)) (subscriptionKey f c) = 0
          \<longrightarrow> fst (unsubscribe f c cb s) = [Send ws (Unsubscribe_action c)])
    \<and> (0 < sizeOf (snd (unsubscribe f c cb s)) (subscriptionKey f c) \<longrightarrow> fst (unsubscribe f c cb s) = [])"
proof (intro conjI impI)
  show "sends (Subscribe_action c) (fst (run_calls cs s)) = length (filter isSubscribe cs)"
    using assms by (rule sends_subscribe_count)
  then show "rises (sizes (subscriptionKey f c) cs s) \<le> sends (Subscribe_action c) (fst (run_calls cs s))"
    using rises_le_subscribes [OF assms(2)] by simp
  show "falls (sizes (subscriptionKey f c) cs s) \<le> sends (Unsubscribe_action c) (fst (run_calls cs s))"
    using assms by (rule falls_le_unsubscribe_sends)
  show "fst (subscribe f c cb s) = [Send ws (Subscribe_action c)]"
    using assms(1) by (rule subscribe_effects)
  show "fst (unsubscribe f c cb s) = [Send ws (Unsubscribe_action c)]"
    if "0 < sizeOf s (subscriptionKey f c) \<and> sizeOf (snd (unsubscribe f c cb s)) (subscriptionKey f c) = 0"
    using fall_sends_unsubscribe [OF assms(1), of c "Unsubscribe f c cb"] that by simp
  show "fst (unsubscribe f c cb s) = []"
    if "0 < sizeOf (snd (unsubscribe f c cb s)) (subscriptionKey f c)"
    using that assms(1) by (simp add: unsubscribe_effects sizeOf_def)
qed

text \<open>
  The claim as stated fails: two subscribers joining an empty set are one step from
  zero to nonzero but two wire-level subscribe actions; and a second \<open>unsubscribe\<close>
  of a callback on the set it has already emptied sends the unsubscribe action again.
\<close>

theorem wire_actions_follow_calls_counterexample:
  "feedOpen market_open ''market'' = Some 0
   \<and> sends (Subscribe_action ''BTCUSDT'')
       (fst (run_calls [Subscribe ''market'' ''BTCUSDT'' 1, Subscribe ''market'' ''BTCUSDT'' 2] market_open)) = 2
   \<and> sizes (subscriptionKey ''market'' ''BTCUSDT'')
       [Subscribe ''market'' ''BTCUSDT'' 1, Subscribe ''market'' ''BTCUSDT'' 2] market_open = [0, 1, 2]
   \<and> rises (sizes (subscriptionKey ''market'' ''BTCUSDT'')
       [Subscribe ''market'' ''BTCUSDT'' 1, Subscribe ''market'' ''BTCUSDT'' 2] market_open) = 1
   \<and> sends (Unsubscribe_action ''BTCUSDT'')
       (fst (run_calls [Unsubscribe ''market'' ''BTCUSDT'' 1, Unsubscribe ''market'' ''BTCUSDT'' 1] one_subscriber)) = 2
   \<and> falls (sizes (subscriptionKey ''market'' ''BTCUSDT'')
       [Unsubscribe ''market'' ''BTCUSDT'' 1, Unsubscribe ''market'' ''BTCUSDT'' 1] one_subscriber) = 1"
  by code_simp

theorem wire_actions_follow_calls_witness:
  "feedOpen market_open ''market'' = Some 0
   \<and> list_all (onChannel ''market'' ''BTCUSDT'') btc_calls
   \<and> sends (Subscribe_action ''BTCUSDT'') (fst (run_calls btc_calls market_open)) = length (filter isSubscribe btc_calls)
   \<and> rises (sizes (subscriptionKey ''market'' ''BTCUSDT'') btc_calls market_open)
        \<le> sends (Subscribe_action ''BTCUSDT'') (fst (run_calls btc_calls market_open))
   \<and> falls (sizes (subscriptionKey ''market'' ''BTCUSDT'') btc_calls market_open)
        \<le> sends (Unsubscribe_action ''BTCUSDT'') (fst (run_calls btc_calls market_open))
   \<and> feedOpen one_subscriber ''market'' = Some 0
   \<and> 0 < sizeOf one_subscriber (subscriptionKey ''market'' ''BTCUSDT'')
   \<and> sizeOf (snd (unsubscribe ''market'' ''BTCUSDT'' 1 one_subscriber)) (subscriptionKey ''market'' ''BTCUSDT'') = 0
   \<and> fst (unsubscribe ''market'' ''BTCUSDT'' 1 one_subscriber) = [Send 0 (Unsubscribe_action ''BTCUSDT'')]
   \<and> feedOpen two_subscribers ''market'' = Some 0
   \<and> 0 < sizeOf (snd (unsubscribe ''market'' ''BTCUSDT'' 1 two_subscribers)) (subscriptionKey ''market'' ''BTCUSDT'')
   \<and> fst (unsubscribe ''market'' ''BTCUSDT'' 1 two_subscribers) = []"
proof -
  have a1: "feedOpen market_open ''market'' = Some 0" by code_simp
  have a2: "list_all (onChannel ''market'' ''BTCUSDT'') btc_calls" by code_simp
  have b1: "feedOpen one_subscriber ''market'' = Some 0" by code_simp
  have b2: "0 < sizeOf one_subscriber (subscriptionKey ''market'' ''BTCUSDT'')" by code_simp
  have b3: "sizeOf (snd (unsubscribe ''market'' ''BTCUSDT'' 1 one_subscriber)) (subscriptionKey ''market'' ''BTCUSDT'') = 0"
    by code_simp
  have c1: "feedOpen two_subscribers ''market'' = Some 0" by code_simp
  have c2: "0 < sizeOf (snd (unsubscribe ''market'' ''BTCUSDT'' 1 two_subscribers)) (subscriptionKey ''market'' ''BTCUSDT'')"
    by code_simp
  have nil: "list_all (onChannel ''market'' ''BTCUSDT'') []" by simp
  from wire_actions_follow_calls [OF a1 a2]
       wire_actions_follow_calls [OF b1 nil, of 1]
       wire_actions_follow_calls [OF c1 nil, of 1]
       a1 a2 b1 b2 b3 c1 c2
  show ?thesis by blast
qed

section \<open>Entries of the subscription table\<close>

lemma subscribers_unsubscribeHandle:
  "subscribers (snd (unsubscribeHandle f c cb s)) = subscribers (snd (unsubscribe f c cb s))"
  by (simp add: unsubscribeHandle_def unsubscribe_def Let_def split: option.splits)

lemma api_keeps_entry:
  "map_of (subscribers s) k \<noteq> None \<Longrightarrow> map_of (subscribers (snd (api a s))) k \<noteq> None"
  by (cases a) (auto simp: subscribe_def unsubscribe_def unsubscribeHandle_def Let_def update_conv' split: option.splits)

lemma run_calls_keeps_entry:
  "map_of (subscribers s) k \<noteq> None \<Longrightarrow> map_of (subscribers (snd (run_calls cs s))) k \<noteq> None"
proof (induction cs arbitrary: s)
  case Nil
  then show ?case by simp
next
  case (Cons a cs)
  from Cons.IH [OF api_keeps_entry [OF Cons.prems]] show ?case
    by (simp add: run_calls_Cons_snd del: run_calls.simps(2))
qed

lemma unsubscribe_keeps_entry:
  "map_of (subscribers s) k \<noteq> None \<Longrightarrow> map_of (subscribers (snd (unsubscribe f c cb s))) k \<noteq> None"
  using api_keeps_entry [of s k "Unsubscribe f c cb"] by simp

text \<open>
  C6 (as amended). \<open>unsubscribe\<close> and the handle returned by \<open>subscribe\<close> both
  delete the callback from the set under the key and leave the subscription table
  in the same state; afterwards the callback is not a member. An entry of the table
  is never removed: once a key has a set it keeps one through every sequence of
  \<open>subscribe\<close>, \<open>unsubscribe\<close> and handle calls, also when the set has become
  empty. Removing the last subscriber with \<open>unsubscribe\<close> while the connection is
  open sends the wire-level unsubscribe action.
\<close>

theorem unsubscribe_and_handle:
  "subscribers (snd (unsubscribeHandle f c cb s)) = subscribers (snd (unsubscribe f c cb s))
   \<and> cb \<notin> set (subscribersOf (snd (unsubscribe f c cb s)) (subscriptionKey f c))
   \<and> cb \<notin> set (subscribersOf (snd (unsubscribeHandle f c cb s)) (subscriptionKey f c))
   \<and> (map_of (subscribers s) k \<noteq> None \<longrightarrow> map_of (subscribers (snd (run_calls cs s))) k \<noteq> None)
   \<and> (feedOpen s f = Some ws \<and> subscribersOf s (subscriptionKey f c) = [cb] \<longrightarrow>
        fst (unsubscribe f c cb s) = [Send ws (Unsubscribe_action c)]
        \<and> subscribersOf (snd (unsubscribe f c cb s)) (subscriptionKey f c) = []
        \<and> map_of (subscribers (snd (unsubscribe f c cb s))) (subscriptionKey f c) \<noteq> None)"
proof (intro conjI impI)
  show "subscribers (snd (unsubscribeHandle f c cb s)) = subscribers (snd (unsubscribe f c cb s))"
    by (rule subscribers_unsubscribeHandle)
  show "cb \<notin> set (subscribersOf (snd (unsubscribe f c cb s)) (subscriptionKey f c))"
    by (simp only: subscribersOf_unsubscribe) simp
  show "cb \<notin> set (subscribersOf (snd (unsubscribeHandle f c cb s)) (subscriptionKey f c))"
    by (simp only: subscribersOf_unsubscribeHandle) simp
  show "map_of (subscribers (snd (run_calls cs s))) k \<noteq> None" if "map_of (subscribers s) k \<noteq> None"
    using that by (rule run_calls_keeps_entry)
next
  assume a: "feedOpen s f = Some ws \<and> subscribersOf s (subscriptionKey f c) = [cb]"
  then have entry: "map_of (subscribers s) (subscriptionKey f c) \<noteq> None"
    by (auto simp: subscribersOf_def split: option.splits)
  from a show after: "subscribersOf (snd (unsubscribe f c cb s)) (subscriptionKey f c) = []"
    by (simp add: subscribersOf_unsubscribe)
  from a entry after show "fst (unsubscribe f c cb s) = [Send ws (Unsubscribe_action c)]"
    by (simp add: unsubscribe_effects)
  from entry show "map_of (subscribers (snd (unsubscribe f c cb s))) (subscriptionKey f c) \<noteq> None"
    by (rule unsubscribe_keeps_entry)
qed

text \<open>
  The claim as stated fails: after the only subscriber has unsubscribed, the table
  still holds the entry, with an empty set; and the handle, unlike \<open>unsubscribe\<close>,
  sends no wire-level action when it removes the last subscriber.
\<close>

theorem unsubscribe_and_handle_counterexample:
  "map_of (subscribers (snd (run_calls [Subscribe ''market'' ''BTCUSDT'' 1, Unsubscribe ''market'' ''BTCUSDT'' 1] market_open)))
      (subscriptionKey ''market'' ''BTCUSDT'') = Some [None]
   \<and> set_size [None] = 0
   \<and> fst (unsubscribe ''market'' ''BTCUSDT'' 1 one_subscriber) = [Send 0 (Unsubscribe_action ''BTCUSDT'')]
   \<and> fst (unsubscribeHandle ''market'' ''BTCUSDT'' 1 one_subscriber) = []
   \<and> map_of (subscribers (snd (unsubscribeHandle ''market'' ''BTCUSDT'' 1 one_subscriber)))
      (subscriptionKey ''market'' ''BTCUSDT'') = Some [None]"
  by code_simp

theorem unsubscribe_and_handle_witness:
  "map_of (subscribers one_subscriber) (subscriptionKey ''market'' ''BTCUSDT'') \<noteq> None
   \<and> map_of (subscribers (snd (run_calls btc_calls one_subscriber))) (subscriptionKey ''market'' ''BTCUSDT'') \<noteq> None
   \<and> feedOpen one_subscriber ''market'' = Some 0
   \<and> subscribersOf one_subscriber (subscriptionKey ''market'' ''BTCUSDT'') = [1]
   \<and> fst (unsubscribe ''market'' ''BTCUSDT'' 1 one_subscriber) = [Send 0 (Unsubscribe_action ''BTCUSDT'')]
   \<and> subscribersOf (snd (unsubscribe ''market'' ''BTCUSDT'' 1 one_subscriber)) (subscriptionKey ''market'' ''BTCUSDT'') = []
   \<and> subscribers (snd (unsubscribeHandle ''market'' ''BTCUSDT'' 1 one_subscriber))
       = subscribers (snd (unsubscribe ''market'' ''BTCUSDT'' 1 one_subscriber))"
proof -
  have a: "map_of (subscribers one_subscriber) (subscriptionKey ''market'' ''BTCUSDT'') \<noteq> None" by code_simp
  have b: "feedOpen one_subscriber ''market'' = Some 0" by code_simp
  have c: "subscribersOf one_subscriber (subscriptionKey ''market'' ''BTCUSDT'') = [1]" by code_simp
  from unsubscribe_and_handle [of "''market''" "''BTCUSDT''" 1 one_subscriber
         "subscriptionKey ''market'' ''BTCUSDT''" btc_calls 0] a b c
  show ?thesis by blast
qed

section \<open>Notification\<close>

lemma invoked_append [simp]: "invoked (es @ es') = invoked es @ invoked es'"
  by (induction es rule: invoked.induct) simp_all

lemma invoked_api [simp]: "invoked (fst (api a s)) = []"
  by (cases a) (simp_all add: subscribe_def unsubscribe_def unsubscribeHandle_def Let_def split: option.splits)

lemma invoked_run_calls [simp]: "invoked (fst (run_calls cs s)) = []"
  by (induction cs arbitrary: s) (simp_all add: run_calls_Cons_fst del: run_calls.simps(2))

lemma tryCallback_fst:
  "fst (tryCallback cbs cb msg s) =
     Callback cb msg # fst (run_calls (calls (cbs cb)) s)
       @ (if throws (cbs cb) then [ConsoleError (SubscriberError cb)] else [])"
  by (simp add: tryCallback_def split: prod.splits)

lemma tryCallback_snd: "snd (tryCallback cbs cb msg s) = snd (run_calls (calls (cbs cb)) s)"
  by (simp add: tryCallback_def split: prod.splits)

lemma invoked_tryCallback [simp]: "invoked (fst (tryCallback cbs cb msg s)) = [(cb, msg)]"
  by (simp add: tryCallback_fst)

lemma api_other_key:
  "call_key a \<noteq> key \<Longrightarrow> map_of (subscribers (snd (api a s))) key = map_of (subscribers s) key"
  by (cases a) (auto simp: subscribe_def unsubscribe_def unsubscribeHandle_def Let_def update_conv' split: option.splits)

lemma run_calls_other_key:
  "list_all (\<lambda>a. call_key a \<noteq> key) cs \<Longrightarrow>
   map_of (subscribers (snd (run_calls cs s))) key = map_of (subscribers s) key"
  by (induction cs arbitrary: s) (simp_all add: run_calls_Cons_snd api_other_key del: run_calls.simps(2))

lemma tryCallback_quiet:
  "quietOn cbs key cb \<Longrightarrow>
   map_of (subscribers (snd (tryCallback cbs cb msg s))) key = map_of (subscribers s) key"
  by (simp add: tryCallback_snd quietOn_def run_calls_other_key)

lemma forEach_Suc:
  "forEach cbs (Suc fuel) i key msg s =
     (case map_of (subscribers s) key of
        None \<Rightarrow> Some ([], s)
      | Some entries \<Rightarrow>
          if i < length entries
          then (case entries ! i of
                  None \<Rightarrow> forEach cbs fuel (Suc i) key msg s
                | Some cb \<Rightarrow>
                    (case forEach cbs fuel (Suc i) key msg (snd (tryCallback cbs cb msg s)) of
                          None \<Rightarrow> None
                        | Some (es', s'') \<Rightarrow> Some (fst (tryCallback cbs cb msg s) @ es', s'')))
          else Some ([], s))"
  by (simp split: option.splits prod.splits)

lemma members_drop:
  "i < length es \<Longrightarrow> members (drop i es) = (case es ! i of None \<Rightarrow> [] | Some c \<Rightarrow> [c]) @ members (drop (Suc i) es)"
  by (simp add: Cons_nth_drop_Suc [symmetric] split: option.splits)

lemma forEach_quiet:
  assumes "map_of (subscribers s) key = Some entries"
    and "\<forall>cb \<in> set (members entries). quietOn cbs key cb"
    and "length entries - i < fuel"
  shows "\<exists>es s'. forEach cbs fuel i key msg s = Some (es, s')
           \<and> invoked es = map (\<lambda>cb. (cb, msg)) (members (drop i entries))
           \<and> map_of (subscribers s') key = Some entries"
  using assms
proof (induction fuel arbitrary: i s)
  case 0
  then show ?case by simp
next
  case (Suc fuel)
  show ?case
  proof (cases "i < length entries")
    case False
    with Suc.prems(1) show ?thesis by (simp add: forEach_Suc del: forEach.simps)
  next
    case True
    then have fuel: "length entries - Suc i < fuel" using Suc.prems(3) by simp
    show ?thesis
    proof (cases "entries ! i")
      case None
      from Suc.IH [OF Suc.prems(1,2) fuel] obtain es s'
        where "forEach cbs fuel (Suc i) key msg s = Some (es, s')"
          "invoked es = map (\<lambda>cb. (cb, msg)) (members (drop (Suc i) entries))"
          "map_of (subscribers s') key = Some entries" by blast
      with True None Suc.prems(1) show ?thesis
        by (simp add: forEach_Suc members_drop del: forEach.simps)
    next
      case (Some cb)
      let ?s1 = "snd (tryCallback cbs cb msg s)"
      from True Some have "Some cb \<in> set entries" by (metis nth_mem)
      then have q: "quietOn cbs key cb" using Suc.prems(2) by simp
      have s1: "map_of (subscribers ?s1) key = Some entries"
        using tryCallback_quiet [OF q] Suc.prems(1) by simp
      from Suc.IH [OF s1 Suc.prems(2) fuel] obtain es s'
        where "forEach cbs fuel (Suc i) key msg ?s1 = Some (es, s')"
          "invoked es = map (\<lambda>cb. (cb, msg)) (members (drop (Suc i) entries))"
          "map_of (subscribers s') key = Some entries" by blast
      with True Some Suc.prems(1) show ?thesis
        by (simp add: forEach_Suc members_drop del: forEach.simps)
    qed
  qed
qed

lemma subscribersOf_entriesOf: "subscribersOf s key = members (entriesOf s key)"
  by (simp add: subscribersOf_def entriesOf_def split: option.splits)

lemma notifySubscribers_quiet:
  assumes "\<forall>cb \<in> set (subscribersOf s (subscriptionKey f (channelOf m))).
             quietOn cbs (subscriptionKey f (channelOf m)) cb"
    and "length (entriesOf s (subscriptionKey f (channelOf m))) < fuel"
  shows "\<exists>es s'. notifySubscribers cbs fuel f (JMsg m) s = Some (es, s', None)
           \<and> invoked es = map (\<lambda>cb. (cb, JMsg m)) (subscribersOf s (subscriptionKey f (channelOf m)))
           \<and> map_of (subscribers s') (subscriptionKey f (channelOf m))
               = map_of (subscribers s) (subscriptionKey f (channelOf m))"
proof (cases "map_of (subscribers s) (subscriptionKey f (channelOf m))")
  case None
  then show ?thesis by (simp add: notifySubscribers_def subscribersOf_def)
next
  case (Some entries)
  then have e: "entriesOf s (subscriptionKey f (channelOf m)) = entries"
    by (simp add: entriesOf_def)
  from assms(1) have q: "\<forall>cb \<in> set (members entries). quietOn cbs (subscriptionKey f (channelOf m)) cb"
    by (simp only: subscribersOf_entriesOf e)
  from assms(2) have fuel: "length entries - 0 < fuel" by (simp add: e)
  from forEach_quiet [OF Some q fuel, of "JMsg m"] obtain es s'
    where "forEach cbs fuel 0 (subscriptionKey f (channelOf m)) (JMsg m) s = Some (es, s')"
      "invoked es = map (\<lambda>cb. (cb, JMsg m)) (members entries)"
      "map_of (subscribers s') (subscriptionKey f (channelOf m)) = Some entries" by auto
  with Some show ?thesis
    by (simp add: notifySubscribers_def subscribersOf_entriesOf e)
qed

text \<open>
  C3 (as amended). \<open>notifySubscribers\<close> iterates over the live subscriber set, not
  over a copy. When no callback of the set subscribes or unsubscribes on that same
  (feed, channel) during the call, the call ends, the callbacks called are exactly
  the members the set had at the start, each once and in insertion order, each with
  the message, and the set is as before.
\<close>

theorem notify_visits_unchanged_set:
  assumes "\<forall>cb \<in> set (subscribersOf s (subscriptionKey f (channelOf m))).
             quietOn cbs (subscriptionKey f (channelOf m)) cb"
    and "length (entriesOf s (subscriptionKey f (channelOf m))) < fuel"
  shows "\<exists>es s'. notifySubscribers cbs fuel f (JMsg m) s = Some (es, s', None)
           \<and> invoked es = map (\<lambda>cb. (cb, JMsg m)) (subscribersOf s (subscriptionKey f (channelOf m)))
           \<and> subscribersOf s' (subscriptionKey f (channelOf m)) = subscribersOf s (subscriptionKey f (channelOf m))"
  using notifySubscribers_quiet [OF assms] by (auto simp: subscribersOf_def)

text \<open>
  The claim as stated fails: with the subscribers 1 and 2, a first callback that
  unsubscribes the second leaves the second uncalled, and a first callback that
  subscribes a third has the third called in the same notification.
\<close>

theorem notify_visits_unchanged_set_counterexample:
  "subscribersOf two_subscribers (subscriptionKey ''market'' ''BTCUSDT'') = [1, 2]
   \<and> calledBy (notifySubscribers unsubscriber 10 ''market'' (JMsg btc_tick) two_subscribers) = Some [1]
   \<and> calledBy (notifySubscribers recruiter 10 ''market'' (JMsg btc_tick) two_subscribers) = Some [1, 2, 3]"
  by code_simp

theorem notify_visits_unchanged_set_witness:
  "quietOn thrower (subscriptionKey ''market'' (channelOf btc_tick)) 1
   \<and> quietOn thrower (subscriptionKey ''market'' (channelOf btc_tick)) 2
   \<and> subscribersOf two_subscribers (subscriptionKey ''market'' (channelOf btc_tick)) = [1, 2]
   \<and> length (entriesOf two_subscribers (subscriptionKey ''market'' (channelOf btc_tick))) < 3
   \<and> (\<exists>es s'. notifySubscribers thrower 3 ''market'' (JMsg btc_tick) two_subscribers = Some (es, s', None)
         \<and> invoked es = [(1, JMsg btc_tick), (2, JMsg btc_tick)]
         \<and> subscribersOf s' (subscriptionKey ''market'' (channelOf btc_tick)) = [1, 2])"
proof -
  have a: "quietOn thrower (subscriptionKey ''market'' (channelOf btc_tick)) 1" by code_simp
  have b: "quietOn thrower (subscriptionKey ''market'' (channelOf btc_tick)) 2" by code_simp
  have c: "subscribersOf two_subscribers (subscriptionKey ''market'' (channelOf btc_tick)) = [1, 2]" by code_simp
  have d: "length (entriesOf two_subscribers (subscriptionKey ''market'' (channelOf btc_tick))) < 3" by code_simp
  have q: "\<forall>cb \<in> set (subscribersOf two_subscribers (subscriptionKey ''market'' (channelOf btc_tick))).
             quietOn thrower (subscriptionKey ''market'' (channelOf btc_tick)) cb"
    using a b by (simp add: c)
  from notify_visits_unchanged_set [OF q d] a b c d show ?thesis by simp
qed

text \<open>
  The iteration over the live set need not end: a callback that deletes itself
  from the set and adds itself again is appended behind the position of the
  iteration, and is visited again, for ever. No bound on the steps is enough.
\<close>

lemma set_delete_last: "set_delete cb (replicate k None @ [Some cb]) = replicate (Suc k) None"
  by (simp add: set_delete_def replicate_append_same)

lemma set_add_tombstones: "set_add cb (replicate k None) = replicate k None @ [Some cb]"
  by (auto simp: set_add_def)

lemma resubscriber_step:
  assumes "map_of (subscribers s) (subscriptionKey ''market'' ''BTCUSDT'') = Some (replicate k None @ [Some cb])"
  shows "map_of (subscribers (snd (tryCallback resubscriber cb msg s))) (subscriptionKey ''market'' ''BTCUSDT'')
           = Some (replicate (Suc k) None @ [Some cb])"
proof -
  let ?key = "subscriptionKey ''market'' ''BTCUSDT''"
  let ?s1 = "snd (unsubscribe ''market'' ''BTCUSDT'' cb s)"
  have u: "map_of (subscribers ?s1) ?key = Some (replicate (Suc k) None)"
    using assms by (simp add: unsubscribe_def Let_def update_conv' set_delete_last del: replicate_Suc)
  have "map_of (subscribers (snd (subscribe ''market'' ''BTCUSDT'' cb ?s1))) ?key
          = Some (replicate (Suc k) None @ [Some cb])"
    using u by (simp add: subscribe_def Let_def update_conv' set_add_tombstones del: replicate_Suc)
  then show ?thesis
    by (simp add: tryCallback_snd resubscriber_def run_calls_Cons_snd del: run_calls.simps(2))
qed

lemma forEach_may_not_end:
  "map_of (subscribers s) (subscriptionKey ''market'' ''BTCUSDT'') = Some (replicate k None @ [Some cb]) \<Longrightarrow>
   forEach resubscriber fuel k (subscriptionKey ''market'' ''BTCUSDT'') msg s = None"
proof (induction fuel arbitrary: k s)
  case 0
  show ?case by simp
next
  case (Suc fuel)
  have "forEach resubscriber fuel (Suc k) (subscriptionKey ''market'' ''BTCUSDT'') msg
          (snd (tryCallback resubscriber cb msg s)) = None"
    by (rule Suc.IH) (rule resubscriber_step [OF Suc.prems])
  with Suc.prems show ?case
    by (simp add: forEach_Suc nth_append del: forEach.simps)
qed

lemma notification_may_not_end:
  "notifySubscribers resubscriber fuel ''market'' (JMsg btc_tick) one_subscriber = None"
proof -
  have "map_of (subscribers one_subscriber) (subscriptionKey ''market'' ''BTCUSDT'') = Some (replicate 0 None @ [Some 1])"
    by code_simp
  from forEach_may_not_end [OF this, of fuel "JMsg btc_tick"] this
  show ?thesis
    by (simp add: notifySubscribers_def channelOf_def btc_tick_def Let_def)
qed

lemma api_effects_shape:
  "fst (api a s) = [] \<or> (\<exists>ws w. fst (api a s) = [Send ws w])"
proof (cases a)
  case (Subscribe f c cb)
  then show ?thesis by (simp add: subscribe_def Let_def split: option.splits)
next
  case (Unsubscribe f c cb)
  then show ?thesis by (simp add: unsubscribe_def Let_def split: option.splits)
next
  case (InvokeHandle f c cb)
  then show ?thesis by (simp add: unsubscribeHandle_def Let_def split: option.splits)
qed

lemma api_no_subscriber_error: "e \<in> set (fst (api a s)) \<Longrightarrow> \<not> isSubscriberError e"
  using api_effects_shape [of a s] by auto

lemma run_calls_no_subscriber_error: "e \<in> set (fst (run_calls cs s)) \<Longrightarrow> \<not> isSubscriberError e"
proof (induction cs arbitrary: s)
  case Nil
  then show ?case by simp
next
  case (Cons a cs)
  then show ?case
    by (auto simp: run_calls_Cons_fst api_no_subscriber_error simp del: run_calls.simps(2))
qed

lemma withoutSubscriberErrors_append [simp]:
  "withoutSubscriberErrors (es @ es') = withoutSubscriberErrors es @ withoutSubscriberErrors es'"
  by (simp add: withoutSubscriberErrors_def)

lemma withoutSubscriberErrors_run_calls [simp]:
  "withoutSubscriberErrors (fst (run_calls cs s)) = fst (run_calls cs s)"
  unfolding withoutSubscriberErrors_def
  by (rule filter_True) (auto dest: run_calls_no_subscriber_error)

lemma tryCallback_calm:
  "tryCallback (calm cbs) cb msg s =
     (withoutSubscriberErrors (fst (tryCallback cbs cb msg s)), snd (tryCallback cbs cb msg s))"
proof -
  have "fst (tryCallback (calm cbs) cb msg s) = withoutSubscriberErrors (fst (tryCallback cbs cb msg s))"
    using withoutSubscriberErrors_run_calls [of "calls (cbs cb)" s]
    by (simp add: tryCallback_fst calm_def withoutSubscriberErrors_def)
  moreover have "snd (tryCallback (calm cbs) cb msg s) = snd (tryCallback cbs cb msg s)"
    by (simp add: tryCallback_snd calm_def)
  ultimately show ?thesis by (simp add: prod_eq_iff)
qed

lemma forEach_calm:
  "forEach (calm cbs) fuel i key msg s =
     map_option (\<lambda>(es, s'). (withoutSubscriberErrors es, s')) (forEach cbs fuel i key msg s)"
proof (induction fuel arbitrary: i s)
  case 0
  then show ?case by simp
next
  case (Suc fuel)
  show ?case
    by (simp add: forEach_Suc Suc.IH tryCallback_calm withoutSubscriberErrors_def [of "[]"]
        del: forEach.simps split: option.splits)
qed

lemma notifySubscribers_calm:
  "notifySubscribers (calm cbs) fuel f msg s =
     map_option (\<lambda>(es, s', x). (withoutSubscriberErrors es, s', x)) (notifySubscribers cbs fuel f msg s)"
  by (simp add: notifySubscribers_def forEach_calm withoutSubscriberErrors_def [of "[]"] Let_def
      split: parsed.splits option.splits)

lemma notifySubscribers_no_exception:
  "notifySubscribers cbs fuel f (JMsg m) s = Some (es, s', x) \<Longrightarrow> x = None"
  by (auto simp: notifySubscribers_def Let_def split: option.splits)

lemma invoked_mem_Callback: "(cb, msg) \<in> set (invoked es) \<longleftrightarrow> Callback cb msg \<in> set es"
  by (induction es rule: invoked.induct) auto

lemma tryCallback_logs:
  "throws (cbs cb) \<Longrightarrow> ConsoleError (SubscriberError cb) \<in> set (fst (tryCallback cbs cb msg s))"
  by (simp add: tryCallback_fst)

lemma forEach_logs:
  "forEach cbs fuel i key msg s = Some (es, s') \<Longrightarrow> (cb, msg') \<in> set (invoked es) \<Longrightarrow>
   throws (cbs cb) \<Longrightarrow> ConsoleError (SubscriberError cb) \<in> set es"
proof (induction fuel arbitrary: i s es)
  case 0
  then show ?case by simp
next
  case (Suc fuel)
  from Suc.prems show ?case
    by (auto simp: forEach_Suc tryCallback_logs simp del: forEach.simps
        split: option.splits if_splits dest: Suc.IH)
qed

lemma notifySubscribers_logs:
  "notifySubscribers cbs fuel f msg s = Some (es, s', x) \<Longrightarrow> (cb, msg') \<in> set (invoked es) \<Longrightarrow>
   throws (cbs cb) \<Longrightarrow> ConsoleError (SubscriberError cb) \<in> set es"
  by (auto simp: notifySubscribers_def Let_def split: parsed.splits option.splits dest: forEach_logs)

text \<open>
  C9. A throwing callback changes nothing but the console: the notification with
  the callbacks as they are and the one with the same callbacks made not to throw
  call the same callbacks in the same order and end in the same state (so the
  \<open>catch\<close> removes nobody from the set and skips nobody); no exception leaves
  \<open>notifySubscribers\<close>; every throwing callback that was called has its console
  error; and when the callbacks leave the set alone, the notification ends and has
  called every member of the set.
\<close>

theorem throwing_subscriber_is_contained:
  "notifySubscribers (calm cbs) fuel f msg s
     = map_option (\<lambda>(es, s', x). (withoutSubscriberErrors es, s', x)) (notifySubscribers cbs fuel f msg s)
   \<and> (notifySubscribers cbs fuel f (JMsg m) s = Some (es, s', x) \<longrightarrow>
        x = None
        \<and> (\<forall>cb msg'. (cb, msg') \<in> set (invoked es) \<and> throws (cbs cb)
              \<longrightarrow> ConsoleError (SubscriberError cb) \<in> set es))
   \<and> ((\<forall>cb \<in> set (subscribersOf s (subscriptionKey f (channelOf m))).
          quietOn cbs (subscriptionKey f (channelOf m)) cb)
       \<and> length (entriesOf s (subscriptionKey f (channelOf m))) < fuel \<longrightarrow>
        (\<exists>es s'. notifySubscribers cbs fuel f (JMsg m) s = Some (es, s', None)
           \<and> invoked es = map (\<lambda>cb. (cb, JMsg m)) (subscribersOf s (subscriptionKey f (channelOf m)))
           \<and> subscribersOf s' (subscriptionKey f (channelOf m))
               = subscribersOf s (subscriptionKey f (channelOf m))))"
proof (intro conjI impI allI)
  show "notifySubscribers (calm cbs) fuel f msg s
     = map_option (\<lambda>(es, s', x). (withoutSubscriberErrors es, s', x)) (notifySubscribers cbs fuel f msg s)"
    by (rule notifySubscribers_calm)
next
  assume "notifySubscribers cbs fuel f (JMsg m) s = Some (es, s', x)"
  then show "x = None" by (rule notifySubscribers_no_exception)
next
  fix cb msg'
  assume "notifySubscribers cbs fuel f (JMsg m) s = Some (es, s', x)"
    and "(cb, msg') \<in> set (invoked es) \<and> throws (cbs cb)"
  then show "ConsoleError (SubscriberError cb) \<in> set es"
    by (blast dest: notifySubscribers_logs)
next
  assume a: "(\<forall>cb \<in> set (subscribersOf s (subscriptionKey f (channelOf m))).
          quietOn cbs (subscriptionKey f (channelOf m)) cb)
       \<and> length (entriesOf s (subscriptionKey f (channelOf m))) < fuel"
  then have q: "\<forall>cb \<in> set (subscribersOf s (subscriptionKey f (channelOf m))).
          quietOn cbs (subscriptionKey f (channelOf m)) cb"
    and l: "length (entriesOf s (subscriptionKey f (channelOf m))) < fuel" by simp_all
  from notifySubscribers_quiet [OF q l]
  show "\<exists>es s'. notifySubscribers cbs fuel f (JMsg m) s = Some (es, s', None)
           \<and> invoked es = map (\<lambda>cb. (cb, JMsg m)) (subscribersOf s (subscriptionKey f (channelOf m)))
           \<and> subscribersOf s' (subscriptionKey f (channelOf m))
               = subscribersOf s (subscriptionKey f (channelOf m))"
    by (auto simp: subscribersOf_def)
qed

theorem throwing_subscriber_is_contained_witness:
  "throws (thrower 1)
   \<and> subscribersOf two_subscribers (subscriptionKey ''market'' (channelOf btc_tick)) = [1, 2]
   \<and> notifySubscribers thrower 3 ''market'' (JMsg btc_tick) two_subscribers
       = Some ([Callback 1 (JMsg btc_tick), ConsoleError (SubscriberError 1), Callback 2 (JMsg btc_tick)],
               two_subscribers, None)
   \<and> notifySubscribers (calm thrower) 3 ''market'' (JMsg btc_tick) two_subscribers
       = Some ([Callback 1 (JMsg btc_tick), Callback 2 (JMsg btc_tick)], two_subscribers, None)
   \<and> ConsoleError (SubscriberError 1)
       \<in> set [Callback 1 (JMsg btc_tick), ConsoleError (SubscriberError 1), Callback 2 (JMsg btc_tick)]"
proof -
  have t: "throws (thrower 1)" by code_simp
  have m: "subscribersOf two_subscribers (subscriptionKey ''market'' (channelOf btc_tick)) = [1, 2]"
    by code_simp
  have r: "notifySubscribers thrower 3 ''market'' (JMsg btc_tick) two_subscribers
       = Some ([Callback 1 (JMsg btc_tick), ConsoleError (SubscriberError 1), Callback 2 (JMsg btc_tick)],
               two_subscribers, None)"
    by code_simp
  have w: "withoutSubscriberErrors
        [Callback 1 (JMsg btc_tick), ConsoleError (SubscriberError 1), Callback 2 (JMsg btc_tick)]
       = [Callback 1 (JMsg btc_tick), Callback 2 (JMsg btc_tick)]"
    by (simp add: withoutSubscriberErrors_def)
  from throwing_subscriber_is_contained
         [of thrower 3 "''market''" "JMsg btc_tick" two_subscribers btc_tick
             "[Callback 1 (JMsg btc_tick), ConsoleError (SubscriberError 1), Callback 2 (JMsg btc_tick)]"
             two_subscribers None] t m r w
  show ?thesis by simp
qed

section \<open>Message routing\<close>

lemma noteMessage_frame [simp]:
  "subscribers (noteMessage f msg s) = subscribers s"
  "buffer (noteMessage f msg s) = buffer s"
  "sockets (noteMessage f msg s) = sockets s"
  by (simp_all add: noteMessage_def split: option.splits)

lemma addToBuffer_frame [simp]:
  "subscribers (addToBuffer f msg now s) = subscribers s"
  "feeds (addToBuffer f msg now s) = feeds s"
  "sockets (addToBuffer f msg now s) = sockets s"
  by (simp_all add: addToBuffer_def Let_def)

lemma subscribersOf_cong: "subscribers s = subscribers t \<Longrightarrow> subscribersOf s k = subscribersOf t k"
  by (simp add: subscribersOf_def)

lemma entriesOf_cong: "subscribers s = subscribers t \<Longrightarrow> entriesOf s k = entriesOf t k"
  by (simp add: entriesOf_def)

lemma feedBufferOf_cong: "buffer s = buffer t \<Longrightarrow> feedBufferOf s f = feedBufferOf t f"
  by (simp add: feedBufferOf_def)

lemma api_buffer [simp]: "buffer (snd (api a s)) = buffer s"
  by (cases a) (simp_all add: subscribe_def unsubscribe_def unsubscribeHandle_def Let_def split: option.splits)

lemma run_calls_buffer [simp]: "buffer (snd (run_calls cs s)) = buffer s"
  by (induction cs arbitrary: s) (simp_all add: run_calls_Cons_snd del: run_calls.simps(2))

lemma forEach_buffer: "forEach cbs fuel i key msg s = Some (es, s') \<Longrightarrow> buffer s' = buffer s"
proof (induction fuel arbitrary: i s es)
  case 0
  then show ?case by simp
next
  case (Suc fuel)
  from Suc.prems show ?case
    by (auto simp: forEach_Suc tryCallback_snd simp del: forEach.simps
        split: option.splits if_splits dest!: Suc.IH)
qed

lemma notifySubscribers_buffer:
  "notifySubscribers cbs fuel f msg s = Some (es, s', x) \<Longrightarrow> buffer s' = buffer s"
  by (auto simp: notifySubscribers_def Let_def split: parsed.splits option.splits dest: forEach_buffer)

lemma handleMessage_malformed:
  "parse d = None \<Longrightarrow>
   handleMessage cbs ext parse fuel now f d s = Some ([ConsoleError (MessageError f)], s)"
  by (simp add: handleMessage_def)

lemma handleMessage_handler_throws:
  "parse d = Some msg \<Longrightarrow> hasHandler f \<Longrightarrow> handlerThrows ext f msg \<Longrightarrow>
   handleMessage cbs ext parse fuel now f d s =
     Some ([Handler f msg, ConsoleError (MessageError f)], noteMessage f msg s)"
  by (simp add: handleMessage_def)

lemma handleMessage_delivered:
  assumes "parse d = Some msg" and "\<not> (hasHandler f \<and> handlerThrows ext f msg)"
    and "notifySubscribers cbs fuel f msg (addToBuffer f msg now (noteMessage f msg s)) = Some (es, s', None)"
  shows "handleMessage cbs ext parse fuel now f d s =
           Some ((if hasHandler f then [Handler f msg] else []) @ es, s')"
  using assms by (cases "hasHandler f") (simp_all add: handleMessage_def Let_def)

lemma invoked_handler_prefix [simp]:
  "invoked ((if b then [Handler f msg] else []) @ es) = invoked es"
  by simp

lemma channelOf_absent: "channel m = None \<Longrightarrow> channelOf m = ''default''"
  by (simp add: channelOf_def)

lemma handleMessage_quiet:
  assumes "parse d = Some (JMsg m)" and "\<not> (hasHandler f \<and> ext f m)"
    and "\<forall>cb \<in> set (subscribersOf s (subscriptionKey f (channelOf m))).
             quietOn cbs (subscriptionKey f (channelOf m)) cb"
    and "length (entriesOf s (subscriptionKey f (channelOf m))) < fuel"
  shows "\<exists>es s'. handleMessage cbs ext parse fuel now f d s = Some (es, s')
           \<and> invoked es = map (\<lambda>cb. (cb, JMsg m)) (subscribersOf s (subscriptionKey f (channelOf m)))
           \<and> feedBufferOf s' f =
               drop (length (feedBufferOf s f @ [buffered (JMsg m) now]) - maxBufferSize)
                    (feedBufferOf s f @ [buffered (JMsg m) now])"
proof -
  let ?k = "subscriptionKey f (channelOf m)"
  let ?s2 = "addToBuffer f (JMsg m) now (noteMessage f (JMsg m) s)"
  have sub: "subscribers ?s2 = subscribers s" by simp
  have q: "\<forall>cb \<in> set (subscribersOf ?s2 ?k). quietOn cbs ?k cb"
    using assms(3) by (simp add: subscribersOf_cong [OF sub])
  have l: "length (entriesOf ?s2 ?k) < fuel"
    using assms(4) by (simp add: entriesOf_cong [OF sub])
  from notifySubscribers_quiet [OF q l] obtain es s'
    where n: "notifySubscribers cbs fuel f (JMsg m) ?s2 = Some (es, s', None)"
      and i: "invoked es = map (\<lambda>cb. (cb, JMsg m)) (subscribersOf ?s2 ?k)" by blast
  have h: "\<not> (hasHandler f \<and> handlerThrows ext f (JMsg m))"
    using assms(2) by (simp add: handlerThrows_def)
  have "feedBufferOf s' f = feedBufferOf ?s2 f"
    by (rule feedBufferOf_cong) (rule notifySubscribers_buffer [OF n])
  also have "\<dots> = drop (length (feedBufferOf s f @ [buffered (JMsg m) now]) - maxBufferSize)
                    (feedBufferOf s f @ [buffered (JMsg m) now])"
    by (simp add: feedBufferOf_addToBuffer feedBufferOf_cong [of "noteMessage f (JMsg m) s" s])
  finally have b: "feedBufferOf s' f = drop (length (feedBufferOf s f @ [buffered (JMsg m) now]) - maxBufferSize)
                    (feedBufferOf s f @ [buffered (JMsg m) now])" .
  from handleMessage_delivered [of parse d "JMsg m" f ext cbs fuel now s es s', OF assms(1) h n] i b
  show ?thesis
    by (simp add: subscribersOf_cong [OF sub])
qed

text \<open>
  The key under which \<open>subscribe\<close> files a callback: for the channel \<open>default\<close> of
  a feed it is the feed's name followed by \<open>:default\<close>, and no other channel of that
  feed and no \<open>default\<close> channel of another feed has that key.
\<close>

lemma default_key: "subscriptionKey f ''default'' = f @ '':default''"
  by (simp add: subscriptionKey_def)

lemma same_feed_other_channel: "c \<noteq> ''default'' \<Longrightarrow> subscriptionKey f c \<noteq> f @ '':default''"
  by (simp add: subscriptionKey_def)

lemma other_feed_default_channel: "g \<noteq> f \<Longrightarrow> subscriptionKey g ''default'' \<noteq> f @ '':default''"
  by (simp add: subscriptionKey_def)

lemma subscribersOf_subscribe_other:
  "subscriptionKey g c \<noteq> key \<Longrightarrow> subscribersOf (snd (subscribe g c cb s)) key = subscribersOf s key"
  using api_other_key [of "Subscribe g c cb" key s] by (simp add: subscribersOf_def)

text \<open>
  C10 (as amended). For a payload that parses to an object without a \<open>channel\<close>
  property, whose handler stage does not throw, and whose notification is not
  disturbed by a callback changing the set it iterates over: the notification is
  routed under the key \<open>feed:default\<close>. It ends, and the callbacks called are
  exactly the subscribers registered for the channel \<open>default\<close> of that feed, each
  once, with the message, and nobody else is called. The set under that key is the
  one \<open>subscribe(feed, 'default', callback)\<close> adds to; a subscription to another
  channel of the feed, or to \<open>default\<close> of another feed, does not enter it.
\<close>

theorem default_channel_routing:
  assumes "channel m = None"
    and "parse d = Some (JMsg m)"
    and "\<not> (hasHandler f \<and> ext f m)"
    and "\<forall>cb \<in> set (subscribersOf s (f @ '':default'')). quietOn cbs (f @ '':default'') cb"
    and "length (entriesOf s (f @ '':default'')) < fuel"
  shows "(\<exists>es s'. handleMessage cbs ext parse fuel now f d s = Some (es, s')
           \<and> invoked es = map (\<lambda>cb. (cb, JMsg m)) (subscribersOf s (f @ '':default''))
           \<and> (\<forall>cb. cb \<notin> set (subscribersOf s (f @ '':default'')) \<longrightarrow> cb \<notin> fst ` set (invoked es)))
     \<and> (\<exists>es s'. notifySubscribers cbs fuel f (JMsg m) s = Some (es, s', None)
           \<and> invoked es = map (\<lambda>cb. (cb, JMsg m)) (subscribersOf s (f @ '':default'')))
     \<and> subscribersOf (snd (subscribe f ''default'' cb s)) (f @ '':default'')
           = (if cb \<in> set (subscribersOf s (f @ '':default'')) then subscribersOf s (f @ '':default'')
              else subscribersOf s (f @ '':default'') @ [cb])
     \<and> (c \<noteq> ''default'' \<longrightarrow>
           subscribersOf (snd (subscribe f c cb s)) (f @ '':default'') = subscribersOf s (f @ '':default''))
     \<and> (g \<noteq> f \<longrightarrow>
           subscribersOf (snd (subscribe g ''default'' cb s)) (f @ '':default'') = subscribersOf s (f @ '':default''))"
proof (intro conjI impI)
  have c: "subscriptionKey f (channelOf m) = f @ '':default''"
    using assms(1) by (simp add: channelOf_absent default_key)
  have q: "\<forall>cb \<in> set (subscribersOf s (subscriptionKey f (channelOf m))).
             quietOn cbs (subscriptionKey f (channelOf m)) cb"
    using assms(4) by (simp only: c)
  have l: "length (entriesOf s (subscriptionKey f (channelOf m))) < fuel"
    using assms(5) by (simp only: c)
  from handleMessage_quiet
         [where parse = parse and d = d and now = now and ext = ext and cbs = cbs and f = f
            and m = m and s = s and fuel = fuel, OF assms(2) assms(3) q l]
  obtain es s' where h: "handleMessage cbs ext parse fuel now f d s = Some (es, s')"
    and i: "invoked es = map (\<lambda>cb. (cb, JMsg m)) (subscribersOf s (f @ '':default''))"
    by (auto simp: c)
  from i have "\<forall>cb. cb \<notin> set (subscribersOf s (f @ '':default'')) \<longrightarrow> cb \<notin> fst ` set (invoked es)"
    by (auto simp: image_iff)
  with h i show "\<exists>es s'. handleMessage cbs ext parse fuel now f d s = Some (es, s')
           \<and> invoked es = map (\<lambda>cb. (cb, JMsg m)) (subscribersOf s (f @ '':default''))
           \<and> (\<forall>cb. cb \<notin> set (subscribersOf s (f @ '':default'')) \<longrightarrow> cb \<notin> fst ` set (invoked es))"
    by blast
  from notifySubscribers_quiet [OF q l]
  show "\<exists>es s'. notifySubscribers cbs fuel f (JMsg m) s = Some (es, s', None)
           \<and> invoked es = map (\<lambda>cb. (cb, JMsg m)) (subscribersOf s (f @ '':default''))"
    by (auto simp: c)
  show "subscribersOf (snd (subscribe f ''default'' cb s)) (f @ '':default'')
           = (if cb \<in> set (subscribersOf s (f @ '':default'')) then subscribersOf s (f @ '':default'')
              else subscribersOf s (f @ '':default'') @ [cb])"
    using subscribersOf_subscribe [of f "''default''" cb s] by (simp add: default_key Let_def)
  show "subscribersOf (snd (subscribe f c cb s)) (f @ '':default'') = subscribersOf s (f @ '':default'')"
    if "c \<noteq> ''default''"
    by (rule subscribersOf_subscribe_other) (rule same_feed_other_channel [OF that])
  show "subscribersOf (snd (subscribe g ''default'' cb s)) (f @ '':default'') = subscribersOf s (f @ '':default'')"
    if "g \<noteq> f"
    by (rule subscribersOf_subscribe_other) (rule other_feed_default_channel [OF that])
qed

text \<open>
  The claim as stated fails. The payload \<open>null\<close> parses and has no \<open>channel\<close>, and
  nobody is called: the handler throws on it, and so does \<open>notifySubscribers\<close>
  itself. The payload \<open>{}\<close> parses and has no \<open>channel\<close>, and with a handler that
  throws nobody is called. And with two subscribers of \<open>default\<close> of which the
  first unsubscribes the second during the notification, the second, though
  registered, is not called.
\<close>

theorem default_channel_routing_counterexample:
  "subscribersOf default_and_btc (''market'' @ '':default'') = [1]
   \<and> sample_parse ''null'' = Some JNull
   \<and> handleMessage idle sound_collaborators sample_parse 2 5000 ''market'' ''null'' default_and_btc
       = Some ([Handler ''market'' JNull, ConsoleError (MessageError ''market'')],
               noteMessage ''market'' JNull default_and_btc)
   \<and> notifySubscribers idle 2 ''market'' JNull default_and_btc = Some ([], default_and_btc, Some TypeError)
   \<and> sample_parse ''{}'' = Some (JMsg empty_object)
   \<and> channel empty_object = None
   \<and> handleMessage idle broken_collaborators sample_parse 2 5000 ''market'' ''{}'' default_and_btc
       = Some ([Handler ''market'' (JMsg empty_object), ConsoleError (MessageError ''market'')],
               noteMessage ''market'' (JMsg empty_object) default_and_btc)
   \<and> invoked [Handler ''market'' (JMsg empty_object), ConsoleError (MessageError ''market'')] = []
   \<and> subscribersOf default_pair (''market'' @ '':default'') = [1, 2]
   \<and> calledBy (notifySubscribers default_unsubscriber 10 ''market'' (JMsg empty_object) default_pair) = Some [1]"
  by code_simp

theorem default_channel_routing_witness:
  "channel empty_object = None
   \<and> sample_parse ''{}'' = Some (JMsg empty_object)
   \<and> \<not> (hasHandler ''market'' \<and> sound_collaborators ''market'' empty_object)
   \<and> subscribersOf default_and_btc (''market'' @ '':default'') = [1]
   \<and> subscribersOf default_and_btc (subscriptionKey ''market'' ''BTCUSDT'') = [2]
   \<and> quietOn idle (''market'' @ '':default'') 1
   \<and> length (entriesOf default_and_btc (''market'' @ '':default'')) < 2
   \<and> (\<exists>es s'. handleMessage idle sound_collaborators sample_parse 2 5000 ''market'' ''{}'' default_and_btc
                  = Some (es, s')
         \<and> invoked es = [(1, JMsg empty_object)])
   \<and> (\<exists>es s'. notifySubscribers idle 2 ''market'' (JMsg empty_object) default_and_btc = Some (es, s', None)
         \<and> invoked es = [(1, JMsg empty_object)])
   \<and> ''BTCUSDT'' \<noteq> ''default''
   \<and> subscribersOf (snd (subscribe ''market'' ''BTCUSDT'' 3 default_and_btc)) (''market'' @ '':default'') = [1]
   \<and> ''trades'' \<noteq> ''market''
   \<and> subscribersOf (snd (subscribe ''trades'' ''default'' 3 default_and_btc)) (''market'' @ '':default'') = [1]
   \<and> subscribersOf (snd (subscribe ''market'' ''default'' 3 default_and_btc)) (''market'' @ '':default'') = [1, 3]"
proof -
  have a: "channel empty_object = None" by code_simp
  have b: "sample_parse ''{}'' = Some (JMsg empty_object)" by code_simp
  have c: "\<not> (hasHandler ''market'' \<and> sound_collaborators ''market'' empty_object)" by code_simp
  have d: "subscribersOf default_and_btc (''market'' @ '':default'') = [1]" by code_simp
  have d': "subscribersOf default_and_btc (subscriptionKey ''market'' ''BTCUSDT'') = [2]" by code_simp
  have e: "quietOn idle (''market'' @ '':default'') 1" by code_simp
  have f: "length (entriesOf default_and_btc (''market'' @ '':default'')) < 2" by code_simp
  have g: "''BTCUSDT'' \<noteq> ''default''" by simp
  have h: "''trades'' \<noteq> ''market''" by simp
  have q: "\<forall>cb \<in> set (subscribersOf default_and_btc (''market'' @ '':default'')).
             quietOn idle (''market'' @ '':default'') cb"
    using e by (simp only: d) simp
  note th = default_channel_routing
         [where m = empty_object and parse = sample_parse and d = "''{}''" and f = "''market''"
            and ext = sound_collaborators and s = default_and_btc and cbs = idle and fuel = 2
            and now = 5000 and cb = 3 and c = "''BTCUSDT''" and g = "''trades''", OF a b c q f]
  from th obtain es s' where "handleMessage idle sound_collaborators sample_parse 2 5000 ''market'' ''{}'' default_and_btc
                  = Some (es, s')"
    and "invoked es = map (\<lambda>cb. (cb, JMsg empty_object)) (subscribersOf default_and_btc (''market'' @ '':default''))"
    by blast
  then have r1: "\<exists>es s'. handleMessage idle sound_collaborators sample_parse 2 5000 ''market'' ''{}'' default_and_btc
                  = Some (es, s')
         \<and> invoked es = [(1, JMsg empty_object)]"
    by (simp only: d) simp
  from th obtain es s' where "notifySubscribers idle 2 ''market'' (JMsg empty_object) default_and_btc = Some (es, s', None)"
    and "invoked es = map (\<lambda>cb. (cb, JMsg empty_object)) (subscribersOf default_and_btc (''market'' @ '':default''))"
    by blast
  then have r2: "\<exists>es s'. notifySubscribers idle 2 ''market'' (JMsg empty_object) default_and_btc = Some (es, s', None)
         \<and> invoked es = [(1, JMsg empty_object)]"
    by (simp only: d) simp
  from th g have "subscribersOf (snd (subscribe ''market'' ''BTCUSDT'' 3 default_and_btc)) (''market'' @ '':default'')
           = subscribersOf default_and_btc (''market'' @ '':default'')"
    by blast
  then have r3: "subscribersOf (snd (subscribe ''market'' ''BTCUSDT'' 3 default_and_btc)) (''market'' @ '':default'') = [1]"
    by (simp only: d)
  from th h have "subscribersOf (snd (subscribe ''trades'' ''default'' 3 default_and_btc)) (''market'' @ '':default'')
           = subscribersOf default_and_btc (''market'' @ '':default'')"
    by blast
  then have r4: "subscribersOf (snd (subscribe ''trades'' ''default'' 3 default_and_btc)) (''market'' @ '':default'') = [1]"
    by (simp only: d)
  from th have "subscribersOf (snd (subscribe ''market'' ''default'' 3 default_and_btc)) (''market'' @ '':default'')
           = (if 3 \<in> set (subscribersOf default_and_btc (''market'' @ '':default''))
              then subscribersOf default_and_btc (''market'' @ '':default'')
              else subscribersOf default_and_btc (''market'' @ '':default'') @ [3])"
    by blast
  then have r5: "subscribersOf (snd (subscribe ''market'' ''default'' 3 default_and_btc)) (''market'' @ '':default'') = [1, 3]"
    by (simp only: d) simp
  from a b c d d' e f g h r1 r2 r3 r4 r5 show ?thesis by blast
qed

text \<open>
  C4 (as amended). The whole of \<open>handleMessage\<close> is one \<open>try\<close> block. When the
  payload parses and the feed's handler throws, the exception is caught and logged,
  the message is not appended to the buffer and no subscriber is notified: the
  buffer and the subscription table are as before, only the feed's last message,
  message count and status have been updated. When the handler does not throw (and
  the callbacks leave the subscriber set alone), the message is appended to the
  buffer and every subscriber of its (feed, channel) is called with it.
\<close>

theorem handler_failure_drops_message:
  assumes "parse d = Some msg"
  shows "(hasHandler f \<and> handlerThrows ext f msg \<longrightarrow>
            handleMessage cbs ext parse fuel now f d s
              = Some ([Handler f msg, ConsoleError (MessageError f)], noteMessage f msg s)
            \<and> buffer (noteMessage f msg s) = buffer s
            \<and> subscribers (noteMessage f msg s) = subscribers s)
       \<and> (msg = JMsg m \<and> \<not> (hasHandler f \<and> ext f m)
           \<and> (\<forall>cb \<in> set (subscribersOf s (subscriptionKey f (channelOf m))).
                 quietOn cbs (subscriptionKey f (channelOf m)) cb)
           \<and> length (entriesOf s (subscriptionKey f (channelOf m))) < fuel \<longrightarrow>
            (\<exists>es s'. handleMessage cbs ext parse fuel now f d s = Some (es, s')
               \<and> invoked es = map (\<lambda>cb. (cb, JMsg m)) (subscribersOf s (subscriptionKey f (channelOf m)))
               \<and> feedBufferOf s' f =
                   drop (length (feedBufferOf s f @ [buffered (JMsg m) now]) - 1000)
                        (feedBufferOf s f @ [buffered (JMsg m) now])))"
proof (intro conjI impI)
  assume "hasHandler f \<and> handlerThrows ext f msg"
  then show "handleMessage cbs ext parse fuel now f d s
              = Some ([Handler f msg, ConsoleError (MessageError f)], noteMessage f msg s)"
    using assms by (simp add: handleMessage_handler_throws)
  show "buffer (noteMessage f msg s) = buffer s" by simp
  show "subscribers (noteMessage f msg s) = subscribers s" by simp
next
  assume a: "msg = JMsg m \<and> \<not> (hasHandler f \<and> ext f m)
           \<and> (\<forall>cb \<in> set (subscribersOf s (subscriptionKey f (channelOf m))).
                 quietOn cbs (subscriptionKey f (channelOf m)) cb)
           \<and> length (entriesOf s (subscriptionKey f (channelOf m))) < fuel"
  then have p: "parse d = Some (JMsg m)" using assms by simp
  from a have h: "\<not> (hasHandler f \<and> ext f m)" by simp
  from a have q: "\<forall>cb \<in> set (subscribersOf s (subscriptionKey f (channelOf m))).
                 quietOn cbs (subscriptionKey f (channelOf m)) cb" by simp
  from a have l: "length (entriesOf s (subscriptionKey f (channelOf m))) < fuel" by simp
  from handleMessage_quiet
         [where parse = parse and d = d and now = now and ext = ext and cbs = cbs and f = f
            and m = m and s = s and fuel = fuel, OF p h q l]
  show "\<exists>es s'. handleMessage cbs ext parse fuel now f d s = Some (es, s')
               \<and> invoked es = map (\<lambda>cb. (cb, JMsg m)) (subscribersOf s (subscriptionKey f (channelOf m)))
               \<and> feedBufferOf s' f =
                   drop (length (feedBufferOf s f @ [buffered (JMsg m) now]) - 1000)
                        (feedBufferOf s f @ [buffered (JMsg m) now])"
    by (simp add: maxBufferSize_def)
qed

text \<open>
  The claim as stated fails: with a handler that throws on a payload that parses,
  the subscriber of the message's channel is not called and the buffer stays empty.
\<close>

theorem handler_failure_drops_message_counterexample:
  "sample_parse ''{}'' = Some (JMsg empty_object)
   \<and> subscribersOf default_subscriber (subscriptionKey ''market'' ''default'') = [1]
   \<and> handleMessage idle broken_collaborators sample_parse 2 5000 ''market'' ''{}'' default_subscriber
       = Some ([Handler ''market'' (JMsg empty_object), ConsoleError (MessageError ''market'')],
               noteMessage ''market'' (JMsg empty_object) default_subscriber)
   \<and> invoked [Handler ''market'' (JMsg empty_object), ConsoleError (MessageError ''market'')] = []
   \<and> feedBufferOf (noteMessage ''market'' (JMsg empty_object) default_subscriber) ''market'' = []"
  by code_simp

theorem handler_failure_drops_message_witness:
  "sample_parse ''{}'' = Some (JMsg empty_object)
   \<and> hasHandler ''market''
   \<and> handlerThrows broken_collaborators ''market'' (JMsg empty_object)
   \<and> handleMessage idle broken_collaborators sample_parse 2 5000 ''market'' ''{}'' default_subscriber
       = Some ([Handler ''market'' (JMsg empty_object), ConsoleError (MessageError ''market'')],
               noteMessage ''market'' (JMsg empty_object) default_subscriber)
   \<and> \<not> (hasHandler ''market'' \<and> sound_collaborators ''market'' empty_object)
   \<and> quietOn idle (subscriptionKey ''market'' (channelOf empty_object)) 1
   \<and> subscribersOf default_subscriber (subscriptionKey ''market'' (channelOf empty_object)) = [1]
   \<and> length (entriesOf default_subscriber (subscriptionKey ''market'' (channelOf empty_object))) < 2
   \<and> (\<exists>es s'. handleMessage idle sound_collaborators sample_parse 2 5000 ''market'' ''{}'' default_subscriber
                  = Some (es, s')
         \<and> invoked es = [(1, JMsg empty_object)]
         \<and> feedBufferOf s' ''market'' = [buffered (JMsg empty_object) 5000])"
proof -
  have a: "sample_parse ''{}'' = Some (JMsg empty_object)" by code_simp
  have b: "hasHandler ''market''" by code_simp
  have c: "handlerThrows broken_collaborators ''market'' (JMsg empty_object)" by code_simp
  have d: "\<not> (hasHandler ''market'' \<and> sound_collaborators ''market'' empty_object)" by code_simp
  have e: "quietOn idle (subscriptionKey ''market'' (channelOf empty_object)) 1" by code_simp
  have f: "subscribersOf default_subscriber (subscriptionKey ''market'' (channelOf empty_object)) = [1]"
    by code_simp
  have g: "length (entriesOf default_subscriber (subscriptionKey ''market'' (channelOf empty_object))) < 2"
    by code_simp
  have i: "feedBufferOf default_subscriber ''market'' = []" by code_simp
  have q: "\<forall>cb \<in> set (subscribersOf default_subscriber (subscriptionKey ''market'' (channelOf empty_object))).
             quietOn idle (subscriptionKey ''market'' (channelOf empty_object)) cb"
    using e by (simp add: f)
  from handler_failure_drops_message
         [where parse = sample_parse and d = "''{}''" and msg = "JMsg empty_object" and f = "''market''"
            and ext = broken_collaborators and cbs = idle and fuel = 2 and now = 5000
            and s = default_subscriber, OF a] b c
  have t: "handleMessage idle broken_collaborators sample_parse 2 5000 ''market'' ''{}'' default_subscriber
       = Some ([Handler ''market'' (JMsg empty_object), ConsoleError (MessageError ''market'')],
               noteMessage ''market'' (JMsg empty_object) default_subscriber)"
    by blast
  from handler_failure_drops_message
         [where parse = sample_parse and d = "''{}''" and msg = "JMsg empty_object" and f = "''market''"
            and ext = sound_collaborators and cbs = idle and fuel = 2 and now = 5000
            and s = default_subscriber and m = empty_object, OF a] d q g
  obtain es s' where "handleMessage idle sound_collaborators sample_parse 2 5000 ''market'' ''{}'' default_subscriber
                  = Some (es, s')"
    and "invoked es = map (\<lambda>cb. (cb, JMsg empty_object))
                        (subscribersOf default_subscriber (subscriptionKey ''market'' (channelOf empty_object)))"
    and "feedBufferOf s' ''market'' =
           drop (length (feedBufferOf default_subscriber ''market'' @ [buffered (JMsg empty_object) 5000]) - 1000)
                (feedBufferOf default_subscriber ''market'' @ [buffered (JMsg empty_object) 5000])"
    by blast
  then have u: "\<exists>es s'. handleMessage idle sound_collaborators sample_parse 2 5000 ''market'' ''{}'' default_subscriber
                  = Some (es, s')
         \<and> invoked es = [(1, JMsg empty_object)]
         \<and> feedBufferOf s' ''market'' = [buffered (JMsg empty_object) 5000]"
    by (simp add: f i)
  from a b c d e f g t u show ?thesis by blast
qed

lemma handleMessages_Cons:
  "handleMessages cbs ext parse fuel f ((now, d) # rest) s =
     (case handleMessage cbs ext parse fuel now f d s of
        None \<Rightarrow> None
      | Some (es, s') \<Rightarrow>
          map_option (\<lambda>(es', s''). (es @ es', s'')) (handleMessages cbs ext parse fuel f rest s'))"
  by (simp split: option.splits)

text \<open>
  C8. A payload that does not parse is dropped: \<open>handleMessage\<close> returns normally
  with one console error and the state it was given, unchanged in every component
  (feeds and their transports, buffer, subscribers); so the messages received after
  it on the feed are handled exactly as they would have been without it.
\<close>

theorem malformed_payload_is_dropped:
  assumes "parse d = None"
  shows "handleMessage cbs ext parse fuel now f d s = Some ([ConsoleError (MessageError f)], s)
     \<and> handleMessages cbs ext parse fuel f ((now, d) # rest) s
        = map_option (\<lambda>(es, s'). (ConsoleError (MessageError f) # es, s'))
            (handleMessages cbs ext parse fuel f rest s)"
  using assms by (simp add: handleMessage_malformed handleMessages_Cons del: handleMessages.simps)

theorem malformed_payload_is_dropped_witness:
  "sample_parse ''{'' = None
   \<and> handleMessage idle sound_collaborators sample_parse 2 5000 ''market'' ''{'' default_subscriber
       = Some ([ConsoleError (MessageError ''market'')], default_subscriber)
   \<and> handleMessages idle sound_collaborators sample_parse 2 ''market'' [(5000, ''{''), (6000, ''{}'')] default_subscriber
       = Some ([ConsoleError (MessageError ''market''), Handler ''market'' (JMsg empty_object),
                Callback 1 (JMsg empty_object)],
               addToBuffer ''market'' (JMsg empty_object) 6000
                 (noteMessage ''market'' (JMsg empty_object) default_subscriber))"
proof -
  have a: "sample_parse ''{'' = None" by code_simp
  have v: "handleMessages idle sound_collaborators sample_parse 2 ''market'' [(6000, ''{}'')] default_subscriber
       = Some ([Handler ''market'' (JMsg empty_object), Callback 1 (JMsg empty_object)],
               addToBuffer ''market'' (JMsg empty_object) 6000
                 (noteMessage ''market'' (JMsg empty_object) default_subscriber))"
    by code_simp
  from malformed_payload_is_dropped
         [where parse = sample_parse and d = "''{''" and cbs = idle and ext = sound_collaborators
            and fuel = 2 and now = 5000 and f = "''market''" and s = default_subscriber
            and rest = "[(6000, ''{}'')]", OF a] a v
  show ?thesis by simp
qed

section \<open>Reconnection\<close>

lemma attemptsMade_append [simp]: "attemptsMade (es @ es') = attemptsMade es + attemptsMade es'"
  by (induction es rule: attemptsMade.induct) simp_all

lemma timersSet_append [simp]: "timersSet cfg (es @ es') = timersSet cfg es + timersSet cfg es'"
  by (simp add: timersSet_def)

lemma attemptReconnect_exhausted:
  "maxReconnectAttempts cfg \<le> attemptsOf s (name cfg) \<Longrightarrow>
   attemptReconnect cfg s = ([ConsoleError (MaxReconnect (name cfg))], s)"
  by (simp add: attemptReconnect_def Let_def)

lemma attemptReconnect_retry:
  "attemptsOf s (name cfg) < maxReconnectAttempts cfg \<Longrightarrow>
   attemptReconnect cfg s =
     ([ConsoleLog (Attempting (name cfg) (attemptsOf s (name cfg) + 1) (maxReconnectAttempts cfg)),
       SetTimeout cfg],
      s\<lparr>reconnectAttempts := AList.update (name cfg) (attemptsOf s (name cfg) + 1) (reconnectAttempts s)\<rparr>)"
  by (simp add: attemptReconnect_def Let_def)

lemma attemptsOf_reconnectAttempts_cong:
  "reconnectAttempts s = reconnectAttempts t \<Longrightarrow> attemptsOf s f = attemptsOf t f"
  by (simp add: attemptsOf_def)

lemma failedAttempt_exhausted:
  assumes "maxReconnectAttempts cfg \<le> attemptsOf s (name cfg)"
  shows "SetTimeout cfg \<notin> set (fst (failedAttempt sync cfg s))"
    and "attemptsMade (fst (failedAttempt sync cfg s)) = 1"
    and "timersSet cfg (fst (failedAttempt sync cfg s)) = 0"
    and "attemptsOf (snd (failedAttempt sync cfg s)) (name cfg) = attemptsOf s (name cfg)"
proof -
  let ?s2 = "(setReadyState (length (sockets s)) CLOSED (snd (connectFeed False cfg s)))
               \<lparr>connections := AList.delete (name cfg) (connections (setReadyState (length (sockets s)) CLOSED (snd (connectFeed False cfg s))))\<rparr>"
  have a: "attemptsOf ?s2 (name cfg) = attemptsOf s (name cfg)"
    by (rule attemptsOf_reconnectAttempts_cong) (simp add: setReadyState_def connectFeed_def Let_def)
  have r: "attemptReconnect cfg ?s2 = ([ConsoleError (MaxReconnect (name cfg))], ?s2)"
    by (rule attemptReconnect_exhausted) (simp add: a assms)
  have r': "attemptReconnect cfg s = ([ConsoleError (MaxReconnect (name cfg))], s)"
    by (rule attemptReconnect_exhausted) (rule assms)
  have f: "failedAttempt sync cfg s =
     (if sync then ([NewWebSocket (url cfg), ConsoleError (ConnectFailed (name cfg)), ConsoleError (MaxReconnect (name cfg))], s)
      else ([NewWebSocket (url cfg), ConsoleError (SocketError (name cfg)), ConsoleLog (Disconnected (name cfg)),
             ConsoleError (MaxReconnect (name cfg))], ?s2))"
    using r r' by (simp add: failedAttempt_def ws_onclose_def ws_onerror_def connectFeed_def Let_def setReadyState_def)
  show "SetTimeout cfg \<notin> set (fst (failedAttempt sync cfg s))" by (simp add: f)
  show "attemptsMade (fst (failedAttempt sync cfg s)) = 1" by (simp add: f)
  show "timersSet cfg (fst (failedAttempt sync cfg s)) = 0" by (simp add: f timersSet_def)
  show "attemptsOf (snd (failedAttempt sync cfg s)) (name cfg) = attemptsOf s (name cfg)"
    using a by (simp add: f)
qed

lemma failedAttempt_retry:
  assumes "attemptsOf s (name cfg) < maxReconnectAttempts cfg"
  shows "SetTimeout cfg \<in> set (fst (failedAttempt sync cfg s))"
    and "attemptsMade (fst (failedAttempt sync cfg s)) = 1"
    and "timersSet cfg (fst (failedAttempt sync cfg s)) = 1"
    and "attemptsOf (snd (failedAttempt sync cfg s)) (name cfg) = attemptsOf s (name cfg) + 1"
proof -
  let ?s2 = "(setReadyState (length (sockets s)) CLOSED (snd (connectFeed False cfg s)))
               \<lparr>connections := AList.delete (name cfg) (connections (setReadyState (length (sockets s)) CLOSED (snd (connectFeed False cfg s))))\<rparr>"
  let ?k = "attemptsOf s (name cfg)"
  have a: "attemptsOf ?s2 (name cfg) = ?k"
    by (rule attemptsOf_reconnectAttempts_cong) (simp add: setReadyState_def connectFeed_def Let_def)
  have r: "attemptReconnect cfg ?s2 =
     ([ConsoleLog (Attempting (name cfg) (?k + 1) (maxReconnectAttempts cfg)), SetTimeout cfg],
      ?s2\<lparr>reconnectAttempts := AList.update (name cfg) (?k + 1) (reconnectAttempts ?s2)\<rparr>)"
    using attemptReconnect_retry [of ?s2 cfg] assms by (simp only: a)
  have r': "attemptReconnect cfg s =
     ([ConsoleLog (Attempting (name cfg) (?k + 1) (maxReconnectAttempts cfg)), SetTimeout cfg],
      s\<lparr>reconnectAttempts := AList.update (name cfg) (?k + 1) (reconnectAttempts s)\<rparr>)"
    by (rule attemptReconnect_retry) (rule assms)
  have f: "failedAttempt sync cfg s =
     (if sync then ([NewWebSocket (url cfg), ConsoleError (ConnectFailed (name cfg)),
                     ConsoleLog (Attempting (name cfg) (?k + 1) (maxReconnectAttempts cfg)), SetTimeout cfg],
                    s\<lparr>reconnectAttempts := AList.update (name cfg) (?k + 1) (reconnectAttempts s)\<rparr>)
      else ([NewWebSocket (url cfg), ConsoleError (SocketError (name cfg)), ConsoleLog (Disconnected (name cfg)),
             ConsoleLog (Attempting (name cfg) (?k + 1) (maxReconnectAttempts cfg)), SetTimeout cfg],
            ?s2\<lparr>reconnectAttempts := AList.update (name cfg) (?k + 1) (reconnectAttempts ?s2)\<rparr>))"
    using r r' by (simp add: failedAttempt_def ws_onclose_def ws_onerror_def connectFeed_def Let_def setReadyState_def)
  show "SetTimeout cfg \<in> set (fst (failedAttempt sync cfg s))" by (simp add: f)
  show "attemptsMade (fst (failedAttempt sync cfg s)) = 1" by (simp add: f)
  show "timersSet cfg (fst (failedAttempt sync cfg s)) = 1" by (simp add: f timersSet_def)
  show "attemptsOf (snd (failedAttempt sync cfg s)) (name cfg) = attemptsOf s (name cfg) + 1"
    by (simp add: f attemptsOf_def update_conv')
qed

lemma alwaysFailing_Suc:
  "alwaysFailing sync (Suc n) cfg s =
     (if SetTimeout cfg \<in> set (fst (failedAttempt sync cfg s))
      then (fst (failedAttempt sync cfg s) @ fst (alwaysFailing sync n cfg (snd (failedAttempt sync cfg s))),
            snd (alwaysFailing sync n cfg (snd (failedAttempt sync cfg s))))
      else failedAttempt sync cfg s)"
  by (simp split: prod.splits)

lemma alwaysFailing_counts:
  "attemptsOf s (name cfg) \<le> maxReconnectAttempts cfg \<Longrightarrow>
   attemptsMade (fst (alwaysFailing sync n cfg s))
     = min n (nat (maxReconnectAttempts cfg - attemptsOf s (name cfg)) + 1)
   \<and> timersSet cfg (fst (alwaysFailing sync n cfg s))
     = min n (nat (maxReconnectAttempts cfg - attemptsOf s (name cfg)))
   \<and> attemptsOf (snd (alwaysFailing sync n cfg s)) (name cfg)
     = min (attemptsOf s (name cfg) + int n) (maxReconnectAttempts cfg)"
proof (induction n arbitrary: s)
  case 0
  then show ?case by (simp add: timersSet_def)
next
  case (Suc n)
  let ?s1 = "snd (failedAttempt sync cfg s)"
  show ?case
  proof (cases "attemptsOf s (name cfg) < maxReconnectAttempts cfg")
    case True
    note step = failedAttempt_retry [OF True, of sync]
    have "attemptsOf ?s1 (name cfg) \<le> maxReconnectAttempts cfg"
      using True step(4) by simp
    from Suc.IH [OF this] step True show ?thesis
      by (simp add: alwaysFailing_Suc del: alwaysFailing.simps) linarith
  next
    case False
    with Suc.prems have eq: "maxReconnectAttempts cfg \<le> attemptsOf s (name cfg)" by simp
    note step = failedAttempt_exhausted [OF eq, of sync]
    from step eq Suc.prems show ?thesis
      by (simp add: alwaysFailing_Suc del: alwaysFailing.simps)
  qed
qed

lemma failedAttempt_feeds:
  "feeds (snd (failedAttempt False cfg s)) =
     AList.update (name cfg) \<lparr>websocket = length (sockets s), config = cfg, status = ''connecting'',
        lastMessage = JNull, messageCount = 0\<rparr> (feeds s)"
  "feeds (snd (failedAttempt True cfg s)) = feeds s"
  by (simp_all add: failedAttempt_def connectFeed_def ws_onerror_def ws_onclose_def attemptReconnect_def
      setReadyState_def Let_def split: prod.splits)

lemma statusOf_failedAttempt:
  "statusOf (snd (failedAttempt False cfg s)) (name cfg) = Some (''connecting'', JNull, 0)"
  by (simp add: statusOf_def failedAttempt_feeds update_conv')

lemma alwaysFailing_status:
  "0 < n \<Longrightarrow> statusOf (snd (alwaysFailing False n cfg s)) (name cfg) = Some (''connecting'', JNull, 0)"
proof (induction n arbitrary: s)
  case 0
  then show ?case by simp
next
  case (Suc n)
  show ?case
  proof (cases "n = 0")
    case True
    then show ?thesis
      by (simp add: alwaysFailing_Suc statusOf_failedAttempt del: alwaysFailing.simps(2))
  next
    case False
    then have "0 < n" by simp
    from Suc.IH [OF this] show ?thesis
      by (simp add: alwaysFailing_Suc statusOf_failedAttempt del: alwaysFailing.simps)
  qed
qed

lemma alwaysFailing_feeds_sync: "feeds (snd (alwaysFailing True n cfg s)) = feeds s"
  by (induction n arbitrary: s) (simp_all add: alwaysFailing_Suc failedAttempt_feeds del: alwaysFailing.simps(2))

lemma getFeedStats_statusOf:
  "statusOf s f = Some (st, lm, mc) \<Longrightarrow>
   getFeedStats s f = Some \<lparr>stats_status = st, stats_messageCount = mc, stats_lastMessage = lm,
                            stats_reconnectAttempts = attemptsOf s f\<rparr>"
  by (auto simp: statusOf_def getFeedStats_def)

text \<open>
  C2 (as amended). With a transport that never opens, starting with an attempt
  counter of 0: the first attempt and \<open>maxReconnectAttempts\<close> retries are made and
  then no further reconnect is scheduled, however long one waits; the counter then
  equals \<open>maxReconnectAttempts\<close> and every later \<open>attemptReconnect\<close> only logs. The
  service has no state \<open>'Failed'\<close>: after any number of failed attempts the status
  query reports \<open>'connecting'\<close> (and when the constructor itself throws, the feed
  entry is never written).
\<close>

theorem reconnect_stops_without_failed_state:
  assumes "attemptsOf s (name cfg) = 0" and "0 \<le> maxReconnectAttempts cfg"
    and "nat (maxReconnectAttempts cfg) < n"
  shows "attemptsMade (fst (alwaysFailing constructorThrows n cfg s)) = nat (maxReconnectAttempts cfg) + 1
     \<and> timersSet cfg (fst (alwaysFailing constructorThrows n cfg s)) = nat (maxReconnectAttempts cfg)
     \<and> attemptsOf (snd (alwaysFailing constructorThrows n cfg s)) (name cfg) = maxReconnectAttempts cfg
     \<and> attemptReconnect cfg (snd (alwaysFailing constructorThrows n cfg s))
         = ([ConsoleError (MaxReconnect (name cfg))], snd (alwaysFailing constructorThrows n cfg s))
     \<and> getFeedStats (snd (alwaysFailing False n cfg s)) (name cfg)
         = Some \<lparr>stats_status = ''connecting'', stats_messageCount = 0, stats_lastMessage = JNull,
                  stats_reconnectAttempts = maxReconnectAttempts cfg\<rparr>
     \<and> feeds (snd (alwaysFailing True n cfg s)) = feeds s
     \<and> (\<forall>k. 0 < k \<longrightarrow>
           map_option stats_status (getFeedStats (snd (alwaysFailing False k cfg s)) (name cfg))
             = Some ''connecting'')"
proof -
  have le: "attemptsOf s (name cfg) \<le> maxReconnectAttempts cfg" using assms(1,2) by simp
  have always: "\<forall>k. 0 < k \<longrightarrow>
           map_option stats_status (getFeedStats (snd (alwaysFailing False k cfg s)) (name cfg))
             = Some ''connecting''"
  proof (intro allI impI)
    fix k :: nat
    assume "0 < k"
    then have "statusOf (snd (alwaysFailing False k cfg s)) (name cfg) = Some (''connecting'', JNull, 0)"
      by (rule alwaysFailing_status)
    then show "map_option stats_status (getFeedStats (snd (alwaysFailing False k cfg s)) (name cfg))
             = Some ''connecting''"
      by (simp add: getFeedStats_statusOf)
  qed
  note c = alwaysFailing_counts [OF le, of constructorThrows n]
  have made: "attemptsMade (fst (alwaysFailing constructorThrows n cfg s)) = nat (maxReconnectAttempts cfg) + 1"
    using c assms by simp
  have timers: "timersSet cfg (fst (alwaysFailing constructorThrows n cfg s)) = nat (maxReconnectAttempts cfg)"
    using c assms by simp
  have att: "attemptsOf (snd (alwaysFailing constructorThrows n cfg s)) (name cfg) = maxReconnectAttempts cfg"
    using c assms by simp
  have att': "attemptsOf (snd (alwaysFailing False n cfg s)) (name cfg) = maxReconnectAttempts cfg"
    using alwaysFailing_counts [OF le, of False n] assms by simp
  have stop: "attemptReconnect cfg (snd (alwaysFailing constructorThrows n cfg s))
         = ([ConsoleError (MaxReconnect (name cfg))], snd (alwaysFailing constructorThrows n cfg s))"
    by (rule attemptReconnect_exhausted) (simp add: att)
  have "0 < n" using assms(3) by simp
  then have "statusOf (snd (alwaysFailing False n cfg s)) (name cfg) = Some (''connecting'', JNull, 0)"
    by (rule alwaysFailing_status)
  then have stats: "getFeedStats (snd (alwaysFailing False n cfg s)) (name cfg)
         = Some \<lparr>stats_status = ''connecting'', stats_messageCount = 0, stats_lastMessage = JNull,
                  stats_reconnectAttempts = maxReconnectAttempts cfg\<rparr>"
    using att' by (simp add: getFeedStats_statusOf)
  from made timers att stop stats alwaysFailing_feeds_sync [of n cfg s] always show ?thesis by blast
qed

text \<open>
  The claim as stated fails: with \<open>maxReconnectAttempts = 3\<close>, after three failed
  attempts and after all four that are made the status query reports
  \<open>'connecting'\<close>, not \<open>'Failed'\<close>.
\<close>

theorem reconnect_stops_without_failed_state_counterexample:
  "maxReconnectAttempts market_test_config = 3
   \<and> attemptsMade (fst (alwaysFailing False 3 market_test_config empty_service)) = 3
   \<and> map_option stats_status (getFeedStats (snd (alwaysFailing False 3 market_test_config empty_service)) ''market'')
       = Some ''connecting''
   \<and> attemptsMade (fst (alwaysFailing False 100 market_test_config empty_service)) = 4
   \<and> map_option stats_status (getFeedStats (snd (alwaysFailing False 100 market_test_config empty_service)) ''market'')
       = Some ''connecting''
   \<and> ''connecting'' \<noteq> ''Failed''"
  by code_simp

theorem reconnect_stops_without_failed_state_witness:
  "attemptsOf empty_service (name market_test_config) = 0
   \<and> 0 \<le> maxReconnectAttempts market_test_config
   \<and> nat (maxReconnectAttempts market_test_config) < 100
   \<and> attemptsMade (fst (alwaysFailing False 100 market_test_config empty_service)) = 4
   \<and> timersSet market_test_config (fst (alwaysFailing False 100 market_test_config empty_service)) = 3
   \<and> getFeedStats (snd (alwaysFailing False 100 market_test_config empty_service)) ''market''
         = Some \<lparr>stats_status = ''connecting'', stats_messageCount = 0, stats_lastMessage = JNull,
                  stats_reconnectAttempts = 3\<rparr>"
proof -
  have a: "attemptsOf empty_service (name market_test_config) = 0" by code_simp
  have b: "0 \<le> maxReconnectAttempts market_test_config" by code_simp
  have c: "nat (maxReconnectAttempts market_test_config) < 100" by code_simp
  have d: "maxReconnectAttempts market_test_config = 3" "name market_test_config = ''market''"
    by (simp_all add: market_test_config_def)
  from reconnect_stops_without_failed_state [OF a b c, of False] a b c show ?thesis
    by (simp add: d)
qed

section \<open>Staleness check\<close>

lemma checkFeed_fresh:
  "\<not> 60000 < timeSinceLastMessage now feed \<Longrightarrow> checkFeed now (f, feed) (es, s) = (es, s)"
  by (simp add: checkFeed_def)

lemma checkFeed_open:
  "60000 < timeSinceLastMessage now feed \<Longrightarrow> readyState s (websocket feed) = OPEN \<Longrightarrow>
   checkFeed now (f, feed) (es, s) = (es @ [ConsoleWarn (NoMessage f)], s)"
  by (simp add: checkFeed_def)

lemma checkFeed_closed:
  "60000 < timeSinceLastMessage now feed \<Longrightarrow> readyState s (websocket feed) \<noteq> OPEN \<Longrightarrow>
   checkFeed now (f, feed) (es, s) =
     (es @ ConsoleWarn (NoMessage f) # fst (attemptReconnect (config feed) s),
      snd (attemptReconnect (config feed) s))"
  by (simp add: checkFeed_def case_prod_beta)

lemma attemptReconnect_frame:
  "feeds (snd (attemptReconnect cfg s)) = feeds s"
  "sockets (snd (attemptReconnect cfg s)) = sockets s"
  by (simp_all add: attemptReconnect_def Let_def)

lemma checkFeed_frame:
  "feeds (snd (checkFeed now entry acc)) = feeds (snd acc)
   \<and> sockets (snd (checkFeed now entry acc)) = sockets (snd acc)"
proof -
  obtain f feed where e: "entry = (f, feed)" by (cases entry)
  obtain es s where a: "acc = (es, s)" by (cases acc)
  show ?thesis
  proof (cases "60000 < timeSinceLastMessage now feed")
    case False
    then show ?thesis by (simp add: e a checkFeed_fresh)
  next
    case True
    show ?thesis
    proof (cases "readyState s (websocket feed) = OPEN")
      case True
      with \<open>60000 < timeSinceLastMessage now feed\<close> show ?thesis
        by (simp add: e a checkFeed_open)
    next
      case False
      with \<open>60000 < timeSinceLastMessage now feed\<close> show ?thesis
        by (simp add: e a checkFeed_closed attemptReconnect_frame)
    qed
  qed
qed

lemma foldl_checkFeed_frame:
  "feeds (snd (foldl (\<lambda>acc entry. checkFeed now entry acc) acc fs)) = feeds (snd acc)
   \<and> sockets (snd (foldl (\<lambda>acc entry. checkFeed now entry acc) acc fs)) = sockets (snd acc)"
proof (induction fs arbitrary: acc)
  case Nil
  show ?case by simp
next
  case (Cons entry fs)
  from Cons.IH [of "checkFeed now entry acc"] checkFeed_frame [of now entry acc]
  show ?case by simp
qed

lemma foldl_checkFeed_open:
  "list_all (\<lambda>entry. readyState s (websocket (snd entry)) = OPEN) fs \<Longrightarrow>
   foldl (\<lambda>acc entry. checkFeed now entry acc) (es, s) fs
     = (es @ map (\<lambda>entry. ConsoleWarn (NoMessage (fst entry))) (filter (stale now) fs), s)"
proof (induction fs arbitrary: es)
  case Nil
  then show ?case by simp
next
  case (Cons entry fs)
  obtain f feed where e: "entry = (f, feed)" by (cases entry)
  from Cons.prems have o: "readyState s (websocket feed) = OPEN"
    and rest: "list_all (\<lambda>entry. readyState s (websocket (snd entry)) = OPEN) fs"
    by (simp_all add: e)
  show ?case
  proof (cases "60000 < timeSinceLastMessage now feed")
    case True
    then show ?thesis
      using Cons.IH [OF rest] by (simp add: e checkFeed_open [OF True o] stale_def)
  next
    case False
    then show ?thesis
      using Cons.IH [OF rest] by (simp add: e checkFeed_fresh stale_def)
  qed
qed

text \<open>
  C5 (as amended). When the staleness check finds a feed whose last message is
  more than 60 s old (the age is measured against the timestamp the message
  carries, 0 when there is none), it logs a warning; it calls \<open>attemptReconnect\<close>
  for the feed only if the feed's transport is not open. The check never changes a
  feed entry or a transport: it marks nothing unhealthy and closes nothing. When
  every transport reports itself open, the check leaves the whole state unchanged
  and only logs the warnings.
\<close>

theorem stale_feed_reconnects_only_when_not_open:
  assumes "60000 < timeSinceLastMessage now feed"
  shows "(readyState s (websocket feed) = OPEN \<longrightarrow>
            checkFeed now (f, feed) (es, s) = (es @ [ConsoleWarn (NoMessage f)], s))
     \<and> (readyState s (websocket feed) \<noteq> OPEN \<longrightarrow>
            checkFeed now (f, feed) (es, s) =
              (es @ ConsoleWarn (NoMessage f) # fst (attemptReconnect (config feed) s),
               snd (attemptReconnect (config feed) s)))
     \<and> feeds (snd (checkConnectionHealth now s)) = feeds s
     \<and> sockets (snd (checkConnectionHealth now s)) = sockets s
     \<and> (allOpen s \<longrightarrow> checkConnectionHealth now s = (warnings now s, s))"
proof (intro conjI impI)
  show "checkFeed now (f, feed) (es, s) = (es @ [ConsoleWarn (NoMessage f)], s)"
    if "readyState s (websocket feed) = OPEN"
    using assms that by (rule checkFeed_open)
  show "checkFeed now (f, feed) (es, s) =
              (es @ ConsoleWarn (NoMessage f) # fst (attemptReconnect (config feed) s),
               snd (attemptReconnect (config feed) s))"
    if "readyState s (websocket feed) \<noteq> OPEN"
    using assms that by (rule checkFeed_closed)
  show "feeds (snd (checkConnectionHealth now s)) = feeds s"
    using foldl_checkFeed_frame [of now "([], s)" "feeds s"] by (simp add: checkConnectionHealth_def)
  show "sockets (snd (checkConnectionHealth now s)) = sockets s"
    using foldl_checkFeed_frame [of now "([], s)" "feeds s"] by (simp add: checkConnectionHealth_def)
  show "checkConnectionHealth now s = (warnings now s, s)" if "allOpen s"
    using foldl_checkFeed_open [of s "feeds s" now "[]"] that
    by (simp add: checkConnectionHealth_def allOpen_def warnings_def)
qed

text \<open>
  The claim as stated fails: the opened market feed has received no message, the
  check at 100 s finds it stale, and the result is one warning and the same state:
  no reconnect, no close, status unchanged.
\<close>

theorem stale_feed_reconnects_only_when_not_open_counterexample:
  "feeds market_open = [(''market'', market_feed)]
   \<and> readyState market_open (websocket market_feed) = OPEN
   \<and> timeSinceLastMessage 100000 market_feed = 100000
   \<and> checkConnectionHealth 100000 market_open = ([ConsoleWarn (NoMessage ''market'')], market_open)
   \<and> getConnectionStatus market_open ''market'' = ''connecting''"
  by code_simp

theorem stale_feed_reconnects_only_when_not_open_witness:
  "60000 < timeSinceLastMessage 100000 market_feed
   \<and> readyState market_open (websocket market_feed) = OPEN
   \<and> allOpen market_open
   \<and> checkFeed 100000 (''market'', market_feed) ([], market_open)
        = ([ConsoleWarn (NoMessage ''market'')], market_open)
   \<and> checkConnectionHealth 100000 market_open = (warnings 100000 market_open, market_open)
   \<and> readyState market_closed (websocket market_feed) \<noteq> OPEN
   \<and> checkFeed 100000 (''market'', market_feed) ([], market_closed)
        = (ConsoleWarn (NoMessage ''market'') # fst (attemptReconnect (config market_feed) market_closed),
           snd (attemptReconnect (config market_feed) market_closed))
   \<and> SetTimeout market_config \<in> set (fst (attemptReconnect (config market_feed) market_closed))"
proof -
  have a: "60000 < timeSinceLastMessage 100000 market_feed" by code_simp
  have b: "readyState market_open (websocket market_feed) = OPEN" by code_simp
  have c: "allOpen market_open" by code_simp
  have d: "readyState market_closed (websocket market_feed) \<noteq> OPEN" by code_simp
  have e: "SetTimeout market_config \<in> set (fst (attemptReconnect (config market_feed) market_closed))"
    by code_simp
  note open_case = stale_feed_reconnects_only_when_not_open [OF a, of market_open "''market''" "[]"]
  note closed_case = stale_feed_reconnects_only_when_not_open [OF a, of market_closed "''market''" "[]"]
  from open_case b have f: "checkFeed 100000 (''market'', market_feed) ([], market_open)
        = ([] @ [ConsoleWarn (NoMessage ''market'')], market_open)" by blast
  from open_case c have g: "checkConnectionHealth 100000 market_open = (warnings 100000 market_open, market_open)"
    by blast
  from closed_case d have h: "checkFeed 100000 (''market'', market_feed) ([], market_closed)
        = ([] @ ConsoleWarn (NoMessage ''market'') # fst (attemptReconnect (config market_feed) market_closed),
           snd (attemptReconnect (config market_feed) market_closed))" by blast
  from f have f': "checkFeed 100000 (''market'', market_feed) ([], market_open)
        = ([ConsoleWarn (NoMessage ''market'')], market_open)" by (simp only: append_Nil)
  from h have h': "checkFeed 100000 (''market'', market_feed) ([], market_closed)
        = (ConsoleWarn (NoMessage ''market'') # fst (attemptReconnect (config market_feed) market_closed),
           snd (attemptReconnect (config market_feed) market_closed))" by (simp only: append_Nil)
  from a b c d e f' g h' show ?thesis by blast
qed

end
